theory Spec2Isabelle
  imports Main
begin

section \<open>JavaScript values\<close>

text \<open>
  The contract system of \<^verbatim>\<open>lib/package/helpers\<close> moves JSON data between a generated
  client (\<^verbatim>\<open>endpoints.ts\<close>), a signing transport (\<^verbatim>\<open>iamRequest.ts\<close>) and a Lambda handler
  wrapper (\<^verbatim>\<open>initApiHandler.ts\<close>). The values of the model are the JSON values. A string is a
  list of code units, of which the model has the 8-bit ones; a number is an integer, the
  only numbers that the schemas of this repository admit (\<^verbatim>\<open>z.number().int()\<close>), and it is
  written in plain decimal digits. The integers that JavaScript holds exactly, writes in this
  way and reads back without rounding are the safe ones, up to 9007199254740991 in
  magnitude (\<open>wf_value\<close>); numbers with a fraction, larger numbers and the code units above
  255 are not in the model. An object is the list of its own properties in the order in
  which JavaScript enumerates them.
\<close>

datatype jsvalue =
    JNull
  | JBool bool
  | JNum int
  | JStr string
  | JArr "jsvalue list"
  | JObj "(string \<times> jsvalue) list"

text \<open>
  ToBoolean: \<^verbatim>\<open>null\<close>, \<^verbatim>\<open>false\<close>, \<^verbatim>\<open>0\<close> and the empty string are falsy, every array
  and object is truthy.
\<close>

fun truthy :: "jsvalue \<Rightarrow> bool" where
  "truthy JNull = False"
| "truthy (JBool b) = b"
| "truthy (JNum n) = (n \<noteq> 0)"
| "truthy (JStr s) = (s \<noteq> [])"
| "truthy (JArr xs) = True"
| "truthy (JObj kvs) = True"

text \<open>An optional value: \<open>None\<close> is \<^verbatim>\<open>undefined\<close>, which is falsy.\<close>

fun truthy_opt :: "jsvalue option \<Rightarrow> bool" where
  "truthy_opt None = False"
| "truthy_opt (Some v) = truthy v"

text \<open>
\<^verbatim>\<open>typeof v === "string"\<close>.
\<close>

fun is_string :: "jsvalue \<Rightarrow> bool" where
  "is_string (JStr s) = True"
| "is_string v = False"

section \<open>Rendering values as JSON text\<close>

text \<open>
  \<^verbatim>\<open>JSON.stringify\<close> without indentation, as both sides of the contract call it.
  \<^verbatim>\<open>QuoteJSONString\<close> escapes the quote, the backslash and the control characters and
  copies every other code unit.
\<close>

definition digit_char :: "nat \<Rightarrow> char" where
  "digit_char d = ''0123456789'' ! d"

fun show_nat :: "nat \<Rightarrow> string" where
  "show_nat n = (if n < 10 then [digit_char n] else show_nat (n div 10) @ [digit_char (n mod 10)])"

declare show_nat.simps [simp del]

definition show_int :: "int \<Rightarrow> string" where
  "show_int i = (if i < 0 then CHR ''-'' # show_nat (nat (- i)) else show_nat (nat i))"

definition hex_lower :: "nat \<Rightarrow> char" where
  "hex_lower d = ''0123456789abcdef'' ! d"

definition quote_unit :: "char \<Rightarrow> string" where
  "quote_unit c =
    (if c = CHR 0x08 then [CHR 0x5C, CHR ''b'']
     else if c = CHR 0x09 then [CHR 0x5C, CHR ''t'']
     else if c = CHR 0x0A then [CHR 0x5C, CHR ''n'']
     else if c = CHR 0x0C then [CHR 0x5C, CHR ''f'']
     else if c = CHR 0x0D then [CHR 0x5C, CHR ''r'']
     else if c = CHR 0x22 then [CHR 0x5C, CHR 0x22]
     else if c = CHR 0x5C then [CHR 0x5C, CHR 0x5C]
     else if (of_char c :: nat) < 32
       then [CHR 0x5C, CHR ''u'', CHR ''0'', CHR ''0'',
             hex_lower (of_char c div 16), hex_lower (of_char c mod 16)]
     else [c])"

definition QuoteJSONString :: "string \<Rightarrow> string" where
  "QuoteJSONString s = CHR 0x22 # concat (map quote_unit s) @ [CHR 0x22]"

fun join :: "string \<Rightarrow> string list \<Rightarrow> string" where
  "join sep [] = []"
| "join sep [x] = x"
| "join sep (x # y # ys) = x @ sep @ join sep (y # ys)"

fun JSON_stringify :: "jsvalue \<Rightarrow> string" where
  "JSON_stringify JNull = ''null''"
| "JSON_stringify (JBool b) = (if b then ''true'' else ''false'')"
| "JSON_stringify (JNum n) = show_int n"
| "JSON_stringify (JStr s) = QuoteJSONString s"
| "JSON_stringify (JArr xs) = ''['' @ join '','' (map JSON_stringify xs) @ '']''"
| "JSON_stringify (JObj kvs) =
     ''{'' @ join '','' (map (\<lambda>(k, v). QuoteJSONString k @ '':'' @ JSON_stringify v) kvs) @ ''}''"

section \<open>Own properties of an object\<close>

text \<open>
  \<^verbatim>\<open>Object.keys\<close>, \<^verbatim>\<open>Object.entries\<close>, object spread and \<^verbatim>\<open>JSON.stringify\<close> visit the own
  string keys of an object in the order of \<^verbatim>\<open>OrdinaryOwnPropertyKeys\<close>: first the keys that
  are array indices, in ascending numeric order, then the other keys in the order in which
  they were created. An array index is a canonical numeric string (the decimal digits of a
  number, without sign or leading zero) of value at most \<open>2\<^sup>3\<^sup>2 - 2\<close>.
\<close>

definition is_digit :: "char \<Rightarrow> bool" where
  "is_digit c = (48 \<le> (of_char c :: nat) \<and> (of_char c :: nat) \<le> 57)"

definition digits_value :: "string \<Rightarrow> nat" where
  "digits_value s = foldl (\<lambda>n c. 10 * n + (of_char c - 48)) 0 s"

definition is_array_index :: "string \<Rightarrow> bool" where
  "is_array_index k =
    (k \<noteq> [] \<and> list_all is_digit k \<and> show_nat (digits_value k) = k
      \<and> digits_value k \<le> 4294967294)"

text \<open>
  A new key \<open>k\<close> is enumerated before an existing key \<open>k'\<close> when \<open>k\<close> is an array index
  and \<open>k'\<close> is not one or is a larger one. \<open>obj_insert\<close> puts a new property at its
  place in the enumeration; \<open>obj_define\<close> is \<^verbatim>\<open>CreateDataProperty\<close>: it overwrites the value
  of an existing key where it stands and inserts a new key.
\<close>

definition enumerated_before :: "string \<Rightarrow> string \<Rightarrow> bool" where
  "enumerated_before k k' =
    (is_array_index k \<and> (is_array_index k' \<longrightarrow> digits_value k < digits_value k'))"

fun obj_insert :: "string \<Rightarrow> 'v \<Rightarrow> (string \<times> 'v) list \<Rightarrow> (string \<times> 'v) list" where
  "obj_insert k v [] = [(k, v)]"
| "obj_insert k v ((k', v') # kvs) =
     (if enumerated_before k k' then (k, v) # (k', v') # kvs
      else (k', v') # obj_insert k v kvs)"

definition obj_define :: "string \<Rightarrow> 'v \<Rightarrow> (string \<times> 'v) list \<Rightarrow> (string \<times> 'v) list" where
  "obj_define k v kvs =
    (if k \<in> fst ` set kvs then map (\<lambda>(k', v'). if k' = k then (k', v) else (k', v')) kvs
     else obj_insert k v kvs)"

text \<open>
  A list of keys is in enumeration order when every array index in it is preceded by
  smaller array indices only.
\<close>

definition own_key_order :: "string list \<Rightarrow> bool" where
  "own_key_order ks =
    sorted_wrt (\<lambda>k k'. is_array_index k' \<longrightarrow> is_array_index k \<and> digits_value k < digits_value k') ks"

section \<open>Schemas and endpoint contracts\<close>

text \<open>
  The schema library (zod) is a dependency of the repository. A schema is modelled by what
  the code asks of it: \<^verbatim>\<open>safeParse\<close>, which returns either a \<^verbatim>\<open>ZodError\<close> carrying a
  message and a list of issues, or the parsed data; \<^verbatim>\<open>parse\<close> throws the error instead.
  Every theorem about the client and the wrapper holds for all such functions.
\<close>

datatype zod_issue = ZodIssue (issue_path: "string list") (issue_message: string)

datatype zod_error = ZodError (message: string) (errors: "zod_issue list")

type_synonym ZodType = "jsvalue \<Rightarrow> zod_error + jsvalue"

text \<open>
What the code throws and catches.
\<close>

datatype js_error =
    Error string
  | SyntaxError string
  | TypeError string
  | Thrown_ZodError zod_error

text \<open>
  \<^verbatim>\<open>HttpMethod\<close> and \<^verbatim>\<open>ApiEndpointDefinition\<close> of \<^verbatim>\<open>endpoints.ts\<close> (lines 29 and 39 to 46).
\<close>

datatype HttpMethod = GET | POST | PUT | DELETE

fun method_name :: "HttpMethod \<Rightarrow> string" where
  "method_name GET = ''GET''"
| "method_name POST = ''POST''"
| "method_name PUT = ''PUT''"
| "method_name DELETE = ''DELETE''"

record ApiEndpointDefinition =
  path :: string
  "method" :: HttpMethod
  description :: "string option"
  requestSchema :: "ZodType option"
  responseSchema :: "ZodType option"

section \<open>The generated client function\<close>

text \<open>
  \<^verbatim>\<open>encodeURIComponent\<close>: letters, digits and \<^verbatim>\<open>- _ . ! ~ * ' ( )\<close> are kept, every other
  code unit is replaced by the percent-encoded bytes of its UTF-8 encoding (one byte below
  128, two bytes from 128 to 255).
\<close>

definition uri_unreserved :: "char \<Rightarrow> bool" where
  "uri_unreserved c =
    (let n = (of_char c :: nat) in
       (65 \<le> n \<and> n \<le> 90) \<or> (97 \<le> n \<and> n \<le> 122) \<or> (48 \<le> n \<and> n \<le> 57)
       \<or> c \<in> set ''-_.!~*'()'')"

definition hex_upper :: "nat \<Rightarrow> char" where
  "hex_upper d = ''0123456789ABCDEF'' ! d"

definition percent_byte :: "nat \<Rightarrow> string" where
  "percent_byte b = [CHR ''%'', hex_upper (b div 16), hex_upper (b mod 16)]"

definition encode_unit :: "char \<Rightarrow> string" where
  "encode_unit c =
    (let n = (of_char c :: nat) in
       if uri_unreserved c then [c]
       else if n < 128 then percent_byte n
       else percent_byte (192 + n div 64) @ percent_byte (128 + n mod 64))"

definition encodeURIComponent :: "string \<Rightarrow> string" where
  "encodeURIComponent s = concat (map encode_unit s)"

text \<open>
  \<^verbatim>\<open>String.prototype.replace\<close> with a string pattern: the first occurrence of the pattern is
  replaced, the rest of the string is kept. (The replacement is inserted as it is: the
  replacements of this code have no \<^verbatim>\<open>$\<close>, see \<open>encodeURIComponent_plain\<close> below.)
\<close>

fun String_replace :: "string \<Rightarrow> string \<Rightarrow> string \<Rightarrow> string" where
  "String_replace pat rep [] = (if pat = [] then rep else [])"
| "String_replace pat rep (c # s) =
     (if take (length pat) (c # s) = pat then rep @ drop (length pat) (c # s)
      else c # String_replace pat rep s)"

text \<open>
  The parameters of the generated function (\<^verbatim>\<open>endpoints.ts\<close>, lines 181 to 186) and the
  arguments of \<^verbatim>\<open>iamRequest\<close> and \<^verbatim>\<open>makeIAMRequest\<close> (\<^verbatim>\<open>iamRequest.ts\<close>, lines 93 to 101).
  An optional field is an \<open>option\<close>; a record of strings is the list of its entries in
  enumeration order.
\<close>

datatype query_value = QString string | QArray "string list" | QNull

type_synonym query = "(string \<times> query_value) list"

record client_params =
  body :: "jsvalue option"
  headers :: "(string \<times> string) list option"
  pathParameters :: "(string \<times> string) list option"
  query :: "query option"

record iam_args =
  arg_body :: "string option"
  arg_domain :: string
  arg_headers :: "(string \<times> string) list option"
  arg_method :: "string option"
  arg_path :: string
  arg_query :: "query option"
  allowedStatusCodes :: "nat list option"

text \<open>
  What an invocation does besides returning: the records it writes to the console
  (\<^verbatim>\<open>console.error\<close> with the message, the issues and the offending value;
  \<^verbatim>\<open>console.info\<close> with the message, the method and the URL; the elapsed time, a clock
  reading, is left out) and the requests it hands to the transport.
\<close>

datatype console_entry =
    console_error string "zod_issue list" jsvalue
  | console_info string string string

record invocation =
  outcome :: "js_error + jsvalue"
  console :: "console_entry list"
  sent :: "iam_args list"

text \<open>
  \<^verbatim>\<open>buildClientFunction\<close>, lines 187 to 201: the body is validated when the endpoint has a
  request schema and the body is truthy. The result is the message of the error thrown and
  the record logged, or \<open>None\<close> when nothing is thrown.
\<close>

definition request_validation :: "ApiEndpointDefinition \<Rightarrow> string \<Rightarrow> client_params \<Rightarrow> (string \<times> console_entry) option" where
  "request_validation endpoint key params =
    (case (requestSchema endpoint, body params) of
       (Some schema, Some b) \<Rightarrow>
         (if truthy b then
            (case schema b of
               Inl err \<Rightarrow>
                 (let errorMessage = ''Validation error in apiClient.'' @ key @ '': '' @ message err
                  in Some (errorMessage, console_error errorMessage (errors err) b))
             | Inr _ \<Rightarrow> None)
          else None)
     | _ \<Rightarrow> None)"

text \<open>
  Lines 202 to 209: a leading slash is added when missing, then each entry of
  \<^verbatim>\<open>pathParameters\<close> in turn replaces its placeholder by its encoded value.
\<close>

definition request_url :: "string \<Rightarrow> (string \<times> string) list option \<Rightarrow> string" where
  "request_url p pps =
    foldl (\<lambda>url (param, value).
             String_replace (''{'' @ param @ ''}'') (encodeURIComponent value) url)
          (case p of CHR ''/'' # _ \<Rightarrow> p | _ \<Rightarrow> CHR ''/'' # p)
          (case pps of None \<Rightarrow> [] | Some entries \<Rightarrow> entries)"

text \<open>
Lines 211 to 218: the argument of \<^verbatim>\<open>iamRequest\<close>.
\<close>

definition request_args :: "string \<Rightarrow> ApiEndpointDefinition \<Rightarrow> client_params \<Rightarrow> iam_args" where
  "request_args domain endpoint params =
    \<lparr> arg_body = (case body params of
                    Some b \<Rightarrow> if truthy b then Some (JSON_stringify b) else None
                  | None \<Rightarrow> None),
      arg_domain = domain,
      arg_headers = headers params,
      arg_method = Some (method_name (method endpoint)),
      arg_path = request_url (path endpoint) (pathParameters params),
      arg_query = query params,
      allowedStatusCodes = None \<rparr>"

text \<open>
  Lines 220 to 234: a response that fails the response schema is logged, nothing is thrown.
\<close>

definition response_validation :: "ApiEndpointDefinition \<Rightarrow> string \<Rightarrow> jsvalue \<Rightarrow> console_entry list" where
  "response_validation endpoint key response =
    (case responseSchema endpoint of
       Some schema \<Rightarrow>
         (case schema response of
            Inl err \<Rightarrow>
              [console_error (''Response validation error in apiClient.'' @ key @ '': '' @ message err)
                 (errors err) response]
          | Inr _ \<Rightarrow> [])
     | None \<Rightarrow> [])"

text \<open>
  The function that \<^verbatim>\<open>buildClientFunction\<close> returns. \<^verbatim>\<open>iamRequest\<close> itself is imported from
  \<^verbatim>\<open>./iamRequest\<close> and is a parameter here: a function from its argument to the error it
  throws or the response it resolves to.
\<close>

definition buildClientFunction ::
  "(iam_args \<Rightarrow> js_error + jsvalue) \<Rightarrow> string \<Rightarrow> ApiEndpointDefinition \<Rightarrow> string
     \<Rightarrow> client_params \<Rightarrow> invocation" where
  "buildClientFunction iamRequest domain endpoint key params =
    (case request_validation endpoint key params of
       Some (errorMessage, entry) \<Rightarrow>
         \<lparr> outcome = Inl (Error errorMessage), console = [entry], sent = [] \<rparr>
     | None \<Rightarrow>
         (let args = request_args domain endpoint params in
            case iamRequest args of
              Inl e \<Rightarrow> \<lparr> outcome = Inl e, console = [], sent = [args] \<rparr>
            | Inr response \<Rightarrow>
                \<lparr> outcome = Inr response,
                  console = response_validation endpoint key response
                    @ [console_info (''apiClient.'' @ key) (method_name (method endpoint))
                         (domain @ arg_path args)],
                  sent = [args] \<rparr>))"

section \<open>A fragment of the schema library\<close>

text \<open>
  The schemas that the repository writes are built from \<^verbatim>\<open>z.null()\<close>, \<^verbatim>\<open>z.string()\<close>,
  \<^verbatim>\<open>z.number()\<close>, \<^verbatim>\<open>z.number().int().nonnegative()\<close>, \<^verbatim>\<open>z.boolean()\<close>, \<^verbatim>\<open>.optional()\<close>,
  \<^verbatim>\<open>z.array\<close> and \<^verbatim>\<open>z.object\<close>. This fragment gives the examples concrete schemas. An
  object schema is in the library's default mode: it checks the declared keys, in the order
  of the shape, and strips the others from its output. An issue has the path to the
  offending value and the library's message; the message of the error as a whole, which the
  library renders from the issues, is given here by the issue messages joined with
  semicolons; the theorems on the client and on the wrapper hold for every schema and every
  message.
\<close>

datatype zod =
    ZNull
  | ZString
  | ZNumber
  | ZNonnegative
  | ZBoolean
  | ZOptional zod
  | ZArray zod
  | ZObject "(string \<times> zod) list"

fun type_name :: "jsvalue \<Rightarrow> string" where
  "type_name JNull = ''null''"
| "type_name (JBool b) = ''boolean''"
| "type_name (JNum n) = ''number''"
| "type_name (JStr s) = ''string''"
| "type_name (JArr xs) = ''array''"
| "type_name (JObj kvs) = ''object''"

definition invalid_type :: "string \<Rightarrow> jsvalue \<Rightarrow> zod_issue" where
  "invalid_type expected v = ZodIssue [] (''Expected '' @ expected @ '', received '' @ type_name v)"

fun is_optional :: "zod \<Rightarrow> bool" where
  "is_optional (ZOptional s) = True"
| "is_optional s = False"

definition at_key :: "string \<Rightarrow> zod_issue \<Rightarrow> zod_issue" where
  "at_key k i = ZodIssue (k # issue_path i) (issue_message i)"

fun field_issues :: "string \<times> (zod_issue list + jsvalue) option \<Rightarrow> zod_issue list" where
  "field_issues (k, Some (Inl is)) = map (at_key k) is"
| "field_issues (k, _) = []"

fun field_define :: "(string \<times> jsvalue) list \<Rightarrow> string \<times> (zod_issue list + jsvalue) option
    \<Rightarrow> (string \<times> jsvalue) list" where
  "field_define obj (k, Some (Inr w)) = (if k = ''__proto__'' then obj else obj_define k w obj)"
| "field_define obj (k, _) = obj"

fun zod_parse :: "zod \<Rightarrow> jsvalue \<Rightarrow> zod_issue list + jsvalue" where
  "zod_parse ZNull v = (if v = JNull then Inr v else Inl [invalid_type ''null'' v])"
| "zod_parse ZString v = (if is_string v then Inr v else Inl [invalid_type ''string'' v])"
| "zod_parse ZNumber v = (case v of JNum n \<Rightarrow> Inr v | _ \<Rightarrow> Inl [invalid_type ''number'' v])"
| "zod_parse ZNonnegative v =
     (case v of
        JNum n \<Rightarrow> if 0 \<le> n then Inr v
                  else Inl [ZodIssue [] ''Number must be greater than or equal to 0'']
      | _ \<Rightarrow> Inl [invalid_type ''number'' v])"
| "zod_parse ZBoolean v = (case v of JBool b \<Rightarrow> Inr v | _ \<Rightarrow> Inl [invalid_type ''boolean'' v])"
| "zod_parse (ZOptional s) v = zod_parse s v"
| "zod_parse (ZArray s) v =
     (case v of
        JArr xs \<Rightarrow>
          (let results = map (zod_parse s) xs;
               issues = concat (map (\<lambda>(i, r). case r of Inl is \<Rightarrow> map (at_key (show_nat i)) is | Inr _ \<Rightarrow> [])
                                    (zip [0 ..< length results] results))
           in if issues = [] then Inr (JArr (concat (map (\<lambda>r. case r of Inr w \<Rightarrow> [w] | Inl _ \<Rightarrow> []) results)))
              else Inl issues)
      | _ \<Rightarrow> Inl [invalid_type ''array'' v])"
| "zod_parse (ZObject shape) v =
     (case v of
        JObj kvs \<Rightarrow>
          (let results = map (\<lambda>(k, s). (k,
                                case map_of kvs k of
                                  Some w \<Rightarrow> Some (zod_parse s w)
                                | None \<Rightarrow> if is_optional s then None
                                          else Some (Inl [ZodIssue [] ''Required'']))) shape;
               issues = concat (map field_issues results)
           in if issues = [] then Inr (JObj (foldl field_define [] results)) else Inl issues)
      | _ \<Rightarrow> Inl [invalid_type ''object'' v])"

definition safeParse :: "zod \<Rightarrow> ZodType" where
  "safeParse z v =
    (case zod_parse z v of
       Inl issues \<Rightarrow> Inl (ZodError (join ''; '' (map issue_message issues)) issues)
     | Inr w \<Rightarrow> Inr w)"

text \<open>
  The schemas of \<^verbatim>\<open>lib/package/interfaces\<close> and three endpoints of
  \<^verbatim>\<open>lib/package/client/endpoints.ts\<close>.
\<close>

definition rescueSchema :: zod where
  "rescueSchema = ZObject
     [(''hero'', ZString), (''location'', ZString), (''date'', ZOptional ZString),
      (''description'', ZOptional ZString), (''details'', ZOptional ZString)]"

definition heroSchema :: zod where
  "heroSchema = ZObject
     [(''name'', ZString), (''alias'', ZOptional ZString), (''powers'', ZArray ZString),
      (''weaknesses'', ZOptional (ZArray ZString)), (''active'', ZBoolean),
      (''rescues'', ZOptional ZNonnegative)]"

definition AddHeroRequestSchema :: zod where
  "AddHeroRequestSchema = ZObject
     [(''name'', ZString), (''alias'', ZOptional ZString), (''powers'', ZArray ZString),
      (''weaknesses'', ZOptional (ZArray ZString)), (''active'', ZBoolean)]"

definition AddRescueRequestSchema :: zod where
  "AddRescueRequestSchema = rescueSchema"

definition ListHeroRescuesResponseSchema :: zod where
  "ListHeroRescuesResponseSchema = ZObject [(''rescues'', ZArray rescueSchema)]"

definition AddHeroResponseSchema :: zod where
  "AddHeroResponseSchema = ZObject
     [(''hero'', heroSchema), (''success'', ZOptional ZBoolean), (''message'', ZOptional ZString),
      (''error'', ZOptional ZString)]"

definition AddRescueResponseSchema :: zod where
  "AddRescueResponseSchema = ZObject
     [(''rescue'', rescueSchema), (''hero'', ZOptional heroSchema), (''success'', ZOptional ZBoolean),
      (''message'', ZOptional ZString), (''error'', ZOptional ZString)]"

definition defineZodEndpoint :: "string \<Rightarrow> HttpMethod \<Rightarrow> zod \<Rightarrow> zod \<Rightarrow> string option
    \<Rightarrow> ApiEndpointDefinition" where
  "defineZodEndpoint p m request response d =
    \<lparr> path = p, method = m, description = d,
      requestSchema = Some (safeParse request), responseSchema = Some (safeParse response) \<rparr>"

definition listHeroRescues :: ApiEndpointDefinition where
  "listHeroRescues = defineZodEndpoint ''/heroes/{hero}/rescues'' GET ZNull
     ListHeroRescuesResponseSchema
     (Some ''Get a list of rescues performed by a specific hero. The hero is specified in the path parameter.'')"

definition addHero :: ApiEndpointDefinition where
  "addHero = defineZodEndpoint ''/heroes'' POST AddHeroRequestSchema AddHeroResponseSchema
     (Some ''Add a new hero to the system. The hero details are provided in the request body.'')"

definition addRescue :: ApiEndpointDefinition where
  "addRescue = defineZodEndpoint ''/heroes/{hero}/rescues'' POST AddRescueRequestSchema
     AddRescueResponseSchema
     (Some ''Add a rescue performed by a specific hero. The hero is specified in the path parameter, and the rescue details are provided in the request body.'')"

section \<open>Signing and sending a request\<close>

text \<open>
  What the platform and the libraries provide (the process environment, the SSO
  credential provider, the SigV4 signer, the URL parser, the query-string encoder and
  \<^verbatim>\<open>fetch\<close>) is a parameter of the model: a record of functions, each returning
  either the error it throws or its result.
\<close>

record Credentials =
  accessKeyId :: "string option"
  secretAccessKey :: "string option"
  sessionToken :: "string option"

record SignatureV4Init =
  service :: string
  region :: string
  credentials :: Credentials

record HttpRequest =
  hostname :: string
  request_method :: string
  request_headers :: "(string \<times> string) list"
  request_path :: string
  request_body :: "string option"
  request_query :: "query option"

record URL =
  host :: string
  pathname :: string
  href :: string

record Response =
  status :: nat
  statusText :: string
  "text" :: string

record runtime =
  process_env :: "string \<Rightarrow> string option"
  fromSSO :: "string \<Rightarrow> js_error + Credentials"
  SignatureV4_sign :: "SignatureV4Init \<Rightarrow> HttpRequest \<Rightarrow> js_error + HttpRequest"
  new_URL :: "string \<Rightarrow> js_error + URL"
  URLSearchParams_toString :: "query option \<Rightarrow> string"
  fetch :: "string \<Rightarrow> HttpRequest \<Rightarrow> js_error + Response"

text \<open>A string that may be \<^verbatim>\<open>undefined\<close> is truthy when it is defined and not empty.\<close>

fun truthy_string :: "string option \<Rightarrow> bool" where
  "truthy_string None = False"
| "truthy_string (Some s) = (s \<noteq> [])"

text \<open>\<^verbatim>\<open>x || d\<close> on such a string.\<close>

fun or_else :: "string option \<Rightarrow> string \<Rightarrow> string" where
  "or_else None d = d"
| "or_else (Some s) d = (if s \<noteq> [] then s else d)"

text \<open>
\<^verbatim>\<open>getSSOCredentials\<close> and \<^verbatim>\<open>signRequest\<close> (\<^verbatim>\<open>iamRequest.ts\<close>, lines 16 to 63).
  \<open>signer_init\<close> is the argument of \<^verbatim>\<open>new SignatureV4\<close> (lines 55 to 60).
\<close>

definition getSSOCredentials :: "runtime \<Rightarrow> js_error + Credentials" where
  "getSSOCredentials rt =
    (if \<not> truthy_string (process_env rt ''AWS_PROFILE'')
     then Inl (Error ''AWS_PROFILE is not set, possibly not using SSO or not logged in'')
     else fromSSO rt (or_else (process_env rt ''AWS_PROFILE'') []))"

definition signer_init :: "runtime \<Rightarrow> Credentials \<Rightarrow> SignatureV4Init" where
  "signer_init rt c =
    \<lparr> service = ''execute-api'',
      region = or_else (process_env rt ''AWS_DEFAULT_REGION'') [],
      credentials = c \<rparr>"

definition signRequest :: "runtime \<Rightarrow> HttpRequest \<Rightarrow> js_error + HttpRequest" where
  "signRequest rt request =
    (let env_credentials =
           \<lparr> accessKeyId = process_env rt ''AWS_ACCESS_KEY_ID'',
             secretAccessKey = process_env rt ''AWS_SECRET_ACCESS_KEY'',
             sessionToken = process_env rt ''AWS_SESSION_TOKEN'' \<rparr>
     in case (if \<not> truthy_string (accessKeyId env_credentials)
                 \<or> \<not> truthy_string (secretAccessKey env_credentials)
              then getSSOCredentials rt else Inr env_credentials) of
          Inl e \<Rightarrow> Inl e
        | Inr c \<Rightarrow> SignatureV4_sign rt (signer_init rt c) request)"

text \<open>
  \<^verbatim>\<open>makeIAMRequest\<close> (lines 93 to 156). \<open>clean_domain\<close> is lines 109 to 112, \<open>request_of\<close>
  the \<^verbatim>\<open>HttpRequest\<close> of lines 115 to 127, whose headers are an object literal with spreads,
  \<open>transport_response\<close> everything up to the answer of \<^verbatim>\<open>fetch\<close> (lines 105 to 137), and
  \<open>makeIAMRequest\<close> adds the check of the status (lines 138 to 145). The catch block logs
  the error and throws it again; the console records of this function do not bear on its
  result and are left out. The text of the response body, which the code awaits from
  \<^verbatim>\<open>res.text()\<close>, is a field of the response.
\<close>

definition clean_domain :: "string \<Rightarrow> string" where
  "clean_domain incomingDomain =
    (let cleanDomain = String_replace ''https://'' [] incomingDomain
     in if cleanDomain \<noteq> [] \<and> last cleanDomain = CHR ''/'' then butlast cleanDomain
        else cleanDomain)"

definition request_of :: "runtime \<Rightarrow> iam_args \<Rightarrow> URL \<Rightarrow> HttpRequest" where
  "request_of rt args url =
    \<lparr> hostname = host url,
      request_method = or_else (arg_method args) ''GET'',
      request_headers =
        foldl (\<lambda>h (k, v). obj_define k v h)
          (obj_define ''sourceFn'' (or_else (process_env rt ''AWS_LAMBDA_FUNCTION_NAME'') [])
            ((if truthy_string (arg_body args)
              then obj_define ''Content-Type'' ''application/json'' else id)
               (obj_define ''host'' (host url) [])))
          (case arg_headers args of None \<Rightarrow> [] | Some h \<Rightarrow> h),
      request_path = pathname url,
      request_body = arg_body args,
      request_query = arg_query args \<rparr>"

definition search :: "runtime \<Rightarrow> query option \<Rightarrow> string" where
  "search rt q =
    (let s = URLSearchParams_toString rt q in if s = [] then [] else CHR ''?'' # s)"

definition transport_response :: "runtime \<Rightarrow> iam_args \<Rightarrow> js_error + Response" where
  "transport_response rt args =
    (if arg_domain args = [] then Inl (Error ''No domain provided'')
     else if arg_path args = [] then Inl (Error ''No path provided'')
     else case new_URL rt (''https://'' @ clean_domain (arg_domain args) @ ''/'' @ arg_path args) of
       Inl e \<Rightarrow> Inl e
     | Inr url \<Rightarrow>
         (case signRequest rt (request_of rt args url) of
            Inl e \<Rightarrow> Inl e
          | Inr signedRequest \<Rightarrow> fetch rt (href url @ search rt (arg_query args)) signedRequest))"

definition ok :: "Response \<Rightarrow> bool" where
  "ok res = (200 \<le> status res \<and> status res \<le> 299)"

definition makeIAMRequest :: "runtime \<Rightarrow> iam_args \<Rightarrow> js_error + Response" where
  "makeIAMRequest rt args =
    (case transport_response rt args of
       Inl e \<Rightarrow> Inl e
     | Inr res \<Rightarrow>
         if \<not> ok res
            \<and> status res \<notin> set (case allowedStatusCodes args of None \<Rightarrow> [404] | Some codes \<Rightarrow> codes)
         then Inl (Error (''Error making IAM request - status: '' @ show_nat (status res)
                 @ '' ('' @ statusText res @ ''), reason: '' @ text res))
         else Inr res)"

section \<open>The path-parameter shape of a template\<close>

text \<open>
  \<^verbatim>\<open>zodPathParametersSchema\<close> (\<^verbatim>\<open>endpoints.ts\<close>, lines 12 to 23). The loop over
  \<^verbatim>\<open>paramRegex.exec\<close> with the global regular expression \<^verbatim>\<open>/\{([^}]+)\}/g\<close> yields the
  captured names from left to right: at an opening brace the longest run of characters
  other than a closing brace is taken; there is a match when the run is not empty and a
  closing brace follows it, and the scan resumes after that brace; otherwise it resumes at
  the next character.
\<close>

function paramRegex_matches :: "string \<Rightarrow> string list" where
  "paramRegex_matches [] = []"
| "paramRegex_matches (c # s) =
     (let name = takeWhile (\<lambda>x. x \<noteq> CHR ''}'') s;
          rest = dropWhile (\<lambda>x. x \<noteq> CHR ''}'') s
      in if c = CHR ''{'' \<and> name \<noteq> [] \<and> rest \<noteq> []
         then name # paramRegex_matches (tl rest)
         else paramRegex_matches s)"
  by pat_completeness auto
termination
proof (relation "measure length")
  fix c :: char and s name rest
  assume "rest = dropWhile (\<lambda>x. x \<noteq> CHR ''}'') s"
  then have "length (tl rest) \<le> length s"
    using length_dropWhile_le [of "\<lambda>x. x \<noteq> CHR ''}''" s] by simp
  then show "(tl rest, c # s) \<in> measure length" by simp
qed simp_all

text \<open>
  \<^verbatim>\<open>params[name] = z.string()\<close> on an object created by \<^verbatim>\<open>{}\<close>. For the name
  \<^verbatim>\<open>__proto__\<close> the assignment reaches the setter of \<^verbatim>\<open>Object.prototype\<close> and replaces the
  prototype of \<^verbatim>\<open>params\<close> by the schema instead of creating a property, after which what a
  further assignment does depends on the accessors of the schema object; templates with
  such a token are outside the model, and the result for them is \<open>None\<close>.
\<close>

definition obj_assign :: "string \<Rightarrow> 'v \<Rightarrow> (string \<times> 'v) list \<Rightarrow> (string \<times> 'v) list option" where
  "obj_assign k v obj = (if k = ''__proto__'' then None else Some (obj_define k v obj))"

definition path_parameters :: "string \<Rightarrow> (string \<times> zod) list option" where
  "path_parameters p =
    foldl (\<lambda>params name. case params of None \<Rightarrow> None | Some obj \<Rightarrow> obj_assign name ZString obj)
      (Some []) (paramRegex_matches p)"

definition zodPathParametersSchema :: "string \<Rightarrow> zod option" where
  "zodPathParametersSchema p = map_option ZObject (path_parameters p)"

text \<open>
  The distinct elements of a list in order of first occurrence (\<open>remdups\<close> keeps the last
  occurrence of each element).
\<close>

definition first_occurrences :: "'a list \<Rightarrow> 'a list" where
  "first_occurrences xs = rev (remdups (rev xs))"

text \<open>
  The order in which JavaScript enumerates a set of keys given in order of creation: the
  array indices in ascending numeric order, then the other keys in order of creation.
\<close>

definition enumeration_order :: "string list \<Rightarrow> string list" where
  "enumeration_order ks =
    sort_key digits_value (filter is_array_index ks) @ filter (\<lambda>k. \<not> is_array_index k) ks"

text \<open>A template written out: each segment is some text followed by one \<^verbatim>\<open>{name}\<close> token.\<close>

fun template :: "(string \<times> string) list \<Rightarrow> string \<Rightarrow> string" where
  "template [] tail = tail"
| "template ((sep, name) # segs) tail = sep @ ''{'' @ name @ ''}'' @ template segs tail"

section \<open>Reading JSON text\<close>

text \<open>
  \<^verbatim>\<open>JSON.parse\<close>. The grammar is that of JSON: white space, the three literals, numbers,
  strings with escapes, arrays and objects; a text that denotes a value outside the model (a
  number with a fraction or an exponent, an escaped code unit above 255) is refused as a
  malformed text is, and an integer beyond the safe ones is read exactly, where JavaScript
  rounds it; on the JSON text of a value of the model (\<open>wf_value\<close>) the reader answers as
  \<^verbatim>\<open>JSON.parse\<close> does. The
  members of an object are defined in textual order, a repeated key overwriting the earlier
  value. The readers of arrays and objects recurse on what the reader of a value leaves,
  and take a bound on the number of calls; \<open>JSON_parse\<close> gives them twice the length of
  the text plus one, which no text exhausts (lemma \<open>JSON_parse_fuel\<close>: a larger bound gives
  the same answer).
\<close>

definition is_ws :: "char \<Rightarrow> bool" where
  "is_ws c = (c = CHR 0x20 \<or> c = CHR 0x09 \<or> c = CHR 0x0A \<or> c = CHR 0x0D)"

definition skip_ws :: "string \<Rightarrow> string" where
  "skip_ws s = dropWhile is_ws s"

definition hex_value :: "char \<Rightarrow> nat option" where
  "hex_value c =
    (let n = (of_char c :: nat) in
       if 48 \<le> n \<and> n \<le> 57 then Some (n - 48)
       else if 97 \<le> n \<and> n \<le> 102 then Some (n - 87)
       else if 65 \<le> n \<and> n \<le> 70 then Some (n - 55)
       else None)"

definition unescape :: "char \<Rightarrow> char option" where
  "unescape e =
    (if e = CHR 0x22 then Some (CHR 0x22)
     else if e = CHR 0x5C then Some (CHR 0x5C)
     else if e = CHR ''/'' then Some (CHR ''/'')
     else if e = CHR ''b'' then Some (CHR 0x08)
     else if e = CHR ''f'' then Some (CHR 0x0C)
     else if e = CHR ''n'' then Some (CHR 0x0A)
     else if e = CHR ''r'' then Some (CHR 0x0D)
     else if e = CHR ''t'' then Some (CHR 0x09)
     else None)"

definition code_unit :: "char \<Rightarrow> char \<Rightarrow> char \<Rightarrow> char \<Rightarrow> char option" where
  "code_unit a b c d =
    (case (hex_value a, hex_value b, hex_value c, hex_value d) of
       (Some h3, Some h2, Some h1, Some h0) \<Rightarrow>
         if h3 = 0 \<and> h2 = 0 then Some (char_of (16 * h1 + h0)) else None
     | _ \<Rightarrow> None)"

fun parse_chars :: "string \<Rightarrow> (string \<times> string) option" where
  "parse_chars [] = None"
| "parse_chars (c # s) =
     (if c = CHR 0x22 then Some ([], s)
      else if c = CHR 0x5C then
        (case s of
           [] \<Rightarrow> None
         | e # s' \<Rightarrow>
             if e = CHR ''u'' then
               (case s' of
                  a # b # c # d # s'' \<Rightarrow>
                    (case code_unit a b c d of
                       None \<Rightarrow> None
                     | Some u \<Rightarrow> map_option (\<lambda>(t, r). (u # t, r)) (parse_chars s''))
                | _ \<Rightarrow> None)
             else
               (case unescape e of
                  None \<Rightarrow> None
                | Some u \<Rightarrow> map_option (\<lambda>(t, r). (u # t, r)) (parse_chars s')))
      else if (of_char c :: nat) < 32 then None
      else map_option (\<lambda>(t, r). (c # t, r)) (parse_chars s))"

definition parse_nat :: "string \<Rightarrow> (nat \<times> string) option" where
  "parse_nat s =
    (let ds = takeWhile is_digit s; r = dropWhile is_digit s
     in if ds = [] then None
        else if hd ds = CHR ''0'' \<and> tl ds \<noteq> [] then None
        else if r \<noteq> [] \<and> hd r \<in> {CHR ''.'', CHR ''e'', CHR ''E''} then None
        else Some (digits_value ds, r))"

definition parse_number :: "string \<Rightarrow> (int \<times> string) option" where
  "parse_number s =
    (case s of
       [] \<Rightarrow> None
     | c # s' \<Rightarrow>
         if c = CHR ''-'' then map_option (\<lambda>(n, r). (- int n, r)) (parse_nat s')
         else map_option (\<lambda>(n, r). (int n, r)) (parse_nat s))"

definition starts_with :: "string \<Rightarrow> string \<Rightarrow> bool" where
  "starts_with p s = (take (length p) s = p)"

fun parse_value :: "nat \<Rightarrow> string \<Rightarrow> (jsvalue \<times> string) option"
  and parse_elements :: "nat \<Rightarrow> string \<Rightarrow> (jsvalue list \<times> string) option"
  and parse_members :: "nat \<Rightarrow> string \<Rightarrow> ((string \<times> jsvalue) list \<times> string) option" where
  "parse_value 0 s = None"
| "parse_value (Suc n) s =
     (case skip_ws s of
        [] \<Rightarrow> None
      | c # r \<Rightarrow>
          if c = CHR ''['' then
            (case skip_ws r of
               [] \<Rightarrow> None
             | c' # r' \<Rightarrow>
                 if c' = CHR '']'' then Some (JArr [], r')
                 else map_option (\<lambda>(xs, t). (JArr xs, t)) (parse_elements n r))
          else if c = CHR ''{'' then
            (case skip_ws r of
               [] \<Rightarrow> None
             | c' # r' \<Rightarrow>
                 if c' = CHR ''}'' then Some (JObj [], r')
                 else map_option (\<lambda>(kvs, t). (JObj (foldl (\<lambda>obj (k, v). obj_define k v obj) [] kvs), t))
                        (parse_members n r))
          else if c = CHR 0x22 then map_option (\<lambda>(t, r'). (JStr t, r')) (parse_chars r)
          else if starts_with ''true'' (c # r) then Some (JBool True, drop 4 (c # r))
          else if starts_with ''false'' (c # r) then Some (JBool False, drop 5 (c # r))
          else if starts_with ''null'' (c # r) then Some (JNull, drop 4 (c # r))
          else map_option (\<lambda>(i, r'). (JNum i, r')) (parse_number (c # r)))"
| "parse_elements 0 s = None"
| "parse_elements (Suc n) s =
     (case parse_value n s of
        None \<Rightarrow> None
      | Some (x, r) \<Rightarrow>
          (case skip_ws r of
             [] \<Rightarrow> None
           | c # r' \<Rightarrow>
               if c = CHR '']'' then Some ([x], r')
               else if c = CHR '','' then map_option (\<lambda>(xs, t). (x # xs, t)) (parse_elements n r')
               else None))"
| "parse_members 0 s = None"
| "parse_members (Suc n) s =
     (case skip_ws s of
        [] \<Rightarrow> None
      | q # r0 \<Rightarrow>
          if q \<noteq> CHR 0x22 then None
          else
            (case parse_chars r0 of
               None \<Rightarrow> None
             | Some (k, r1) \<Rightarrow>
                 (case skip_ws r1 of
                    [] \<Rightarrow> None
                  | c # r2 \<Rightarrow>
                      if c \<noteq> CHR '':'' then None
                      else
                        (case parse_value n r2 of
                           None \<Rightarrow> None
                         | Some (v, r3) \<Rightarrow>
                             (case skip_ws r3 of
                                [] \<Rightarrow> None
                              | c' # r4 \<Rightarrow>
                                  if c' = CHR ''}'' then Some ([(k, v)], r4)
                                  else if c' = CHR '','' then
                                    map_option (\<lambda>(kvs, t). ((k, v) # kvs, t)) (parse_members n r4)
                                  else None)))))"

definition JSON_parse :: "string \<Rightarrow> js_error + jsvalue" where
  "JSON_parse s =
    (case parse_value (2 * length s + 1) s of
       None \<Rightarrow> Inl (SyntaxError ''Unexpected token in JSON'')
     | Some (v, r) \<Rightarrow>
         if skip_ws r = [] then Inr v else Inl (SyntaxError ''Unexpected token in JSON''))"






section \<open>The server-side handler wrapper\<close>

text \<open>
  \<^verbatim>\<open>initApiHandler\<close> (\<^verbatim>\<open>initApiHandler.ts\<close>, lines 77 to 136). The event, the arguments of
  the business handler and its output are records; the handler is a function from its
  arguments to the error it throws or the output it resolves to.
\<close>

record APIGatewayEvent =
  event_body :: "string option"
  event_headers :: "(string \<times> string) list option"
  httpMethod :: string
  event_path :: string
  event_pathParameters :: "(string \<times> string) list option"
  event_queryStringParameters :: "(string \<times> string) list option"

record HandlerArgs =
  handler_body :: jsvalue
  handler_event :: APIGatewayEvent
  handler_headers :: "(string \<times> string) list"
  handler_method :: string
  handler_path :: string
  handler_pathParameters :: "(string \<times> string) list"
  handler_queryStringParameters :: "(string \<times> string) list"

record HandlerOutput =
  data :: jsvalue
  output_headers :: "(string \<times> string) list option"
  output_statusCode :: "nat option"

record LambdaResult =
  statusCode :: nat
  result_body :: string
  result_headers :: "(string \<times> string) list option"

type_synonym ApiHandler = "HandlerArgs \<Rightarrow> js_error + HandlerOutput"

text \<open>\<^verbatim>\<open>x || {}\<close> on a record that may be \<^verbatim>\<open>null\<close>.\<close>

fun or_empty :: "'a list option \<Rightarrow> 'a list" where
  "or_empty None = []"
| "or_empty (Some xs) = xs"

text \<open>
  Lines 89 to 110: the body is decoded when present and not empty, validated when an input
  schema is configured and a body is present, and bundled with the normalized fields of the
  event. An error of \<^verbatim>\<open>JSON.parse\<close> or of \<^verbatim>\<open>inputSchema.parse\<close> is thrown.
\<close>

definition handler_input :: "ZodType option \<Rightarrow> APIGatewayEvent \<Rightarrow> js_error + HandlerArgs" where
  "handler_input inputSchema event =
    (case (case event_body event of
             Some json \<Rightarrow> if json \<noteq> [] then JSON_parse json else Inr (JObj [])
           | None \<Rightarrow> Inr (JObj [])) of
       Inl err \<Rightarrow> Inl err
     | Inr parsedBody \<Rightarrow>
         (case (case inputSchema of
                  Some schema \<Rightarrow>
                    if truthy_string (event_body event)
                    then (case schema parsedBody of Inl err \<Rightarrow> Inl (Thrown_ZodError err) | Inr v \<Rightarrow> Inr v)
                    else Inr parsedBody
                | None \<Rightarrow> Inr parsedBody) of
            Inl err \<Rightarrow> Inl err
          | Inr validatedInput \<Rightarrow>
              Inr \<lparr> handler_body = validatedInput,
                    handler_event = event,
                    handler_headers = or_empty (event_headers event),
                    handler_method = httpMethod event,
                    handler_path = event_path event,
                    handler_pathParameters = or_empty (event_pathParameters event),
                    handler_queryStringParameters = or_empty (event_queryStringParameters event) \<rparr>))"

text \<open>
  Lines 127 to 134: a string is passed through, any other value is rendered as JSON; a
  missing or zero status code becomes 200.
\<close>

definition serialize :: "HandlerOutput \<Rightarrow> LambdaResult" where
  "serialize handlerOutput =
    \<lparr> statusCode = (case output_statusCode handlerOutput of
                       Some code \<Rightarrow> if code \<noteq> 0 then code else 200
                     | None \<Rightarrow> 200),
      result_body = (case data handlerOutput of
                       JStr string \<Rightarrow> string
                     | value \<Rightarrow> JSON_stringify value),
      result_headers = output_headers handlerOutput \<rparr>"

text \<open>
  The function that \<^verbatim>\<open>initApiHandler\<close> returns: the errors it logs with \<^verbatim>\<open>console.error\<close>
  and its result. An error before or in the handler leaves \<^verbatim>\<open>handlerOutput\<close> undefined and
  gives the result \<^verbatim>\<open>Unknown error\<close>; a failure of \<^verbatim>\<open>outputSchema.parse\<close> is caught by the
  inner \<^verbatim>\<open>try\<close> and gives \<^verbatim>\<open>Internal server error\<close>.
\<close>

definition initApiHandler ::
  "ApiHandler \<Rightarrow> ZodType option \<Rightarrow> ZodType option \<Rightarrow> APIGatewayEvent
     \<Rightarrow> js_error list \<times> LambdaResult" where
  "initApiHandler apiHandler inputSchema outputSchema event =
    (case handler_input inputSchema event of
       Inl err \<Rightarrow>
         ([err], \<lparr> statusCode = 500, result_body = ''Unknown error'', result_headers = None \<rparr>)
     | Inr args \<Rightarrow>
         (case apiHandler args of
            Inl err \<Rightarrow>
              ([err], \<lparr> statusCode = 500, result_body = ''Unknown error'', result_headers = None \<rparr>)
          | Inr handlerOutput \<Rightarrow>
              (case outputSchema of
                 Some schema \<Rightarrow>
                   if \<not> is_string (data handlerOutput) then
                     (case schema (data handlerOutput) of
                        Inl err \<Rightarrow>
                          ([], \<lparr> statusCode = 500, result_body = ''Internal server error'',
                                 result_headers = None \<rparr>)
                      | Inr parsed \<Rightarrow> ([], serialize (handlerOutput\<lparr>data := parsed\<rparr>)))
                   else ([], serialize handlerOutput)
               | None \<Rightarrow> ([], serialize handlerOutput))))"

section \<open>Inputs used in the examples\<close>

definition no_params :: client_params where
  "no_params = \<lparr> body = None, headers = None, pathParameters = None, query = None \<rparr>"

definition respond_with :: "jsvalue \<Rightarrow> iam_args \<Rightarrow> js_error + jsvalue" where
  "respond_with response args = Inr response"

definition superman :: jsvalue where
  "superman = JObj [(''name'', JStr ''Superman''), (''powers'', JArr [JStr ''flight'']),
                    (''active'', JBool True)]"

text \<open>A runtime for the examples: static credentials, a signer that records the scope it
  was given, a URL parser for \<^verbatim>\<open>https://host/path\<close>, and a server that answers every
  request with one fixed response.\<close>

definition example_env :: "string \<Rightarrow> string option" where
  "example_env name =
    (if name = ''AWS_ACCESS_KEY_ID'' then Some ''AKIDEXAMPLE''
     else if name = ''AWS_SECRET_ACCESS_KEY'' then Some ''secret''
     else None)"

definition scope_header :: "SignatureV4Init \<Rightarrow> HttpRequest \<Rightarrow> js_error + HttpRequest" where
  "scope_header init request =
    Inr (request\<lparr>request_headers :=
           obj_define ''x-credential-scope'' (region init @ ''/'' @ service init @ ''/aws4_request'')
             (request_headers request)\<rparr>)"

definition simple_URL :: "string \<Rightarrow> js_error + URL" where
  "simple_URL s =
    (if take 8 s = ''https://'' then
       (let h = takeWhile (\<lambda>c. c \<noteq> CHR ''/'') (drop 8 s);
            p = dropWhile (\<lambda>c. c \<noteq> CHR ''/'') (drop 8 s)
        in Inr \<lparr> host = h, pathname = p, href = ''https://'' @ h @ p \<rparr>)
     else Inl (TypeError ''Invalid URL''))"

definition answering :: "Response \<Rightarrow> runtime" where
  "answering res =
    \<lparr> process_env = example_env,
      fromSSO = (\<lambda>profile. Inl (Error ''no SSO session'')),
      SignatureV4_sign = scope_header,
      new_URL = simple_URL,
      URLSearchParams_toString = (\<lambda>q. []),
      fetch = (\<lambda>url request. Inr res) \<rparr>"

definition get_heroes :: iam_args where
  "get_heroes =
    \<lparr> arg_body = None, arg_domain = ''https://api.example.com'', arg_headers = None,
      arg_method = Some ''GET'', arg_path = ''heroes'', arg_query = None,
      allowedStatusCodes = None \<rparr>"

definition server_error :: Response where
  "server_error = \<lparr> status = 500, statusText = ''Internal Server Error'', text = ''boom'' \<rparr>"

definition findRescues :: ApiEndpointDefinition where
  "findRescues = defineZodEndpoint ''/rescues'' GET AddRescueRequestSchema
     ListHeroRescuesResponseSchema None"

definition a_rescue :: jsvalue where
  "a_rescue = JObj [(''hero'', JStr ''Superman''), (''location'', JStr ''Metropolis'')]"

definition sidekicks :: ApiEndpointDefinition where
  "sidekicks =
    \<lparr> path = ''/heroes/{hero}/sidekicks/{hero}'', method = GET, description = None,
      requestSchema = None, responseSchema = None \<rparr>"

text \<open>A request without a body, a handler that returns one fixed output, and the outputs
  used in the examples of the handler wrapper.\<close>

definition bare_event :: APIGatewayEvent where
  "bare_event =
    \<lparr> event_body = None, event_headers = None, httpMethod = ''GET'',
      event_path = ''/heroes/Superman/rescues'', event_pathParameters = Some [(''hero'', ''Superman'')],
      event_queryStringParameters = None \<rparr>"

definition returning :: "HandlerOutput \<Rightarrow> ApiHandler" where
  "returning handlerOutput args = Inr handlerOutput"

definition hero_required :: HandlerOutput where
  "hero_required =
    \<lparr> data = JObj [(''message'', JStr ''Hero ID is required'')],
      output_headers = Some [(''x-request'', ''42'')], output_statusCode = Some 400 \<rparr>"




section \<open>Properties of the generated client function\<close>

lemma request_validation_falsy:
  "\<not> truthy_opt (body params) \<Longrightarrow> request_validation endpoint key params = None"
  by (cases "body params") (auto simp: request_validation_def split: option.splits)

lemma sent_after_validation:
  "request_validation endpoint key params = None \<Longrightarrow>
     sent (buildClientFunction iamRequest domain endpoint key params)
       = [request_args domain endpoint params]"
  by (simp add: buildClientFunction_def Let_def split: sum.splits)

text \<open>
  Claim C10. The request body is validated only when it is truthy: with a falsy body
  (\<^verbatim>\<open>undefined\<close>, \<^verbatim>\<open>null\<close>, the empty string, \<^verbatim>\<open>0\<close>, \<^verbatim>\<open>false\<close>) the request schema is
  not consulted, whatever it would answer: the invocation is the one of the same endpoint
  without a request schema, it reaches the transport step, and it carries no body.
\<close>

theorem falsy_body_skips_validation:
  assumes "requestSchema endpoint = Some schema" and "\<not> truthy_opt (body params)"
  shows "request_validation endpoint key params = None
    \<and> buildClientFunction iamRequest domain endpoint key params
        = buildClientFunction iamRequest domain (endpoint\<lparr>requestSchema := None\<rparr>) key params
    \<and> sent (buildClientFunction iamRequest domain endpoint key params)
        = [request_args domain endpoint params]
    \<and> arg_body (request_args domain endpoint params) = None"
proof -
  have v: "request_validation endpoint key params = None"
    using assms(2) by (rule request_validation_falsy)
  have v': "request_validation (endpoint\<lparr>requestSchema := None\<rparr>) key params = None"
    by (simp add: request_validation_def)
  have a: "request_args domain (endpoint\<lparr>requestSchema := None\<rparr>) params
             = request_args domain endpoint params"
    by (simp add: request_args_def)
  have r: "response_validation (endpoint\<lparr>requestSchema := None\<rparr>) key response
             = response_validation endpoint key response" for response
    by (simp add: response_validation_def)
  have b: "arg_body (request_args domain endpoint params) = None"
    using assms(2) by (cases "body params") (auto simp: request_args_def)
  show ?thesis
    using v v' a r b sent_after_validation [OF v]
    by (cases "iamRequest (request_args domain endpoint params)")
       (simp_all add: buildClientFunction_def Let_def)
qed


theorem falsy_body_skips_validation_witness:
  "isl (safeParse AddHeroRequestSchema JNull)
   \<and> sent (buildClientFunction (\<lambda>a. Inr (JObj [])) ''https://api.example.com'' addHero ''addHero''
             (no_params\<lparr>body := Some JNull\<rparr>))
       = [request_args ''https://api.example.com'' addHero (no_params\<lparr>body := Some JNull\<rparr>)]
   \<and> arg_body (request_args ''https://api.example.com'' addHero (no_params\<lparr>body := Some JNull\<rparr>)) = None"
proof -
  have schema: "requestSchema addHero = Some (safeParse AddHeroRequestSchema)"
    by (simp add: addHero_def defineZodEndpoint_def)
  have falsy: "\<not> truthy_opt (body (no_params\<lparr>body := Some JNull\<rparr>))"
    by simp
  have rejected: "isl (safeParse AddHeroRequestSchema JNull)"
    by (simp add: safeParse_def AddHeroRequestSchema_def invalid_type_def)
  show ?thesis
    using falsy_body_skips_validation [OF schema falsy, where key = "''addHero''"
        and iamRequest = "\<lambda>a. Inr (JObj [])" and domain = "''https://api.example.com''"]
      rejected
    by blast
qed

lemma request_validation_accepts:
  "schema b = Inr w \<Longrightarrow> requestSchema endpoint = Some schema \<Longrightarrow> body params = Some b \<Longrightarrow>
     request_validation endpoint key params = None"
  by (simp add: request_validation_def)

lemma request_validation_rejects:
  "schema b = Inl err \<Longrightarrow> truthy b \<Longrightarrow> requestSchema endpoint = Some schema \<Longrightarrow>
     body params = Some b \<Longrightarrow>
     request_validation endpoint key params
       = Some (''Validation error in apiClient.'' @ key @ '': '' @ message err,
               console_error (''Validation error in apiClient.'' @ key @ '': '' @ message err)
                 (errors err) b)"
  by (simp add: request_validation_def Let_def)

text \<open>
  Claim C2, as stated, fails: the body \<^verbatim>\<open>0\<close> is rejected by the request schema of
  \<^verbatim>\<open>addHero\<close>, and the invocation reaches the transport step all the same, because the
  guard \<^verbatim>\<open>endpoint.requestSchema && params.body\<close> skips validation of a falsy body.
\<close>

theorem invalid_falsy_body_counterexample:
  "requestSchema addHero = Some (safeParse AddHeroRequestSchema)
   \<and> isl (safeParse AddHeroRequestSchema (JNum 0))
   \<and> outcome (buildClientFunction (respond_with (JObj [])) ''https://api.example.com'' addHero
                ''addHero'' (no_params\<lparr>body := Some (JNum 0)\<rparr>))
       = Inr (JObj [])
   \<and> sent (buildClientFunction (respond_with (JObj [])) ''https://api.example.com'' addHero
             ''addHero'' (no_params\<lparr>body := Some (JNum 0)\<rparr>))
       = [\<lparr> arg_body = None, arg_domain = ''https://api.example.com'', arg_headers = None,
            arg_method = Some ''POST'', arg_path = ''/heroes'', arg_query = None,
            allowedStatusCodes = None \<rparr>]"
  by (simp add: addHero_def defineZodEndpoint_def no_params_def safeParse_def
      AddHeroRequestSchema_def AddHeroResponseSchema_def heroSchema_def invalid_type_def
      buildClientFunction_def request_validation_def request_args_def request_url_def
      response_validation_def Let_def at_key_def respond_with_def)

text \<open>
  Claim C2, amended. For an endpoint with a request schema: every truthy body that fails the
  schema makes the invocation throw the validation error, after logging it, and nothing is
  handed to the transport; every body that passes the schema, and every falsy body (an
  omitted body, \<^verbatim>\<open>null\<close>, \<^verbatim>\<open>false\<close>, \<^verbatim>\<open>0\<close>, the empty string) whether or not the schema
  would accept it, reaches the transport step, whose outcome is the outcome of the
  invocation's request.
\<close>

theorem request_validation_gate:
  assumes "requestSchema endpoint = Some schema"
  shows "(truthy_opt (body params) \<and> body params = Some b \<and> schema b = Inl err \<longrightarrow>
            buildClientFunction iamRequest domain endpoint key params
              = \<lparr> outcome = Inl (Error (''Validation error in apiClient.'' @ key @ '': '' @ message err)),
                  console = [console_error
                               (''Validation error in apiClient.'' @ key @ '': '' @ message err)
                               (errors err) b],
                  sent = [] \<rparr>)
       \<and> ((body params = Some b \<and> schema b = Inr w) \<or> \<not> truthy_opt (body params) \<longrightarrow>
            sent (buildClientFunction iamRequest domain endpoint key params)
              = [request_args domain endpoint params]
            \<and> outcome (buildClientFunction iamRequest domain endpoint key params)
              = iamRequest (request_args domain endpoint params))"
proof (intro conjI impI)
  assume "truthy_opt (body params) \<and> body params = Some b \<and> schema b = Inl err"
  then have "truthy b" and "body params = Some b" and "schema b = Inl err"
    by auto
  then show "buildClientFunction iamRequest domain endpoint key params
      = \<lparr> outcome = Inl (Error (''Validation error in apiClient.'' @ key @ '': '' @ message err)),
          console = [console_error
                       (''Validation error in apiClient.'' @ key @ '': '' @ message err)
                       (errors err) b],
          sent = [] \<rparr>"
    using request_validation_rejects [of schema b err endpoint params key] assms
    by (simp add: buildClientFunction_def)
next
  assume pass: "(body params = Some b \<and> schema b = Inr w) \<or> \<not> truthy_opt (body params)"
  have v: "request_validation endpoint key params = None"
    using pass assms request_validation_accepts [of schema b w endpoint params key]
      request_validation_falsy [of params endpoint key]
    by auto
  show "sent (buildClientFunction iamRequest domain endpoint key params)
      = [request_args domain endpoint params]"
    using v by (rule sent_after_validation)
  show "outcome (buildClientFunction iamRequest domain endpoint key params)
      = iamRequest (request_args domain endpoint params)"
    using v by (simp add: buildClientFunction_def Let_def split: sum.splits)
qed

theorem request_validation_gate_witness:
  "isl (safeParse AddHeroRequestSchema (JObj [(''name'', JNum 7)]))
   \<and> buildClientFunction (respond_with (JObj [])) ''https://api.example.com'' addHero ''addHero''
       (no_params\<lparr>body := Some (JObj [(''name'', JNum 7)])\<rparr>)
     = \<lparr> outcome = Inl (Error (''Validation error in apiClient.addHero: '' @
                 message (projl (safeParse AddHeroRequestSchema (JObj [(''name'', JNum 7)]))))),
         console = [console_error (''Validation error in apiClient.addHero: '' @
                       message (projl (safeParse AddHeroRequestSchema (JObj [(''name'', JNum 7)]))))
                     (errors (projl (safeParse AddHeroRequestSchema (JObj [(''name'', JNum 7)]))))
                     (JObj [(''name'', JNum 7)])],
         sent = [] \<rparr>
   \<and> safeParse AddHeroRequestSchema superman = Inr superman
   \<and> sent (buildClientFunction (respond_with (JObj [])) ''https://api.example.com'' addHero ''addHero''
         (no_params\<lparr>body := Some superman\<rparr>))
     = [request_args ''https://api.example.com'' addHero (no_params\<lparr>body := Some superman\<rparr>)]
   \<and> body no_params = None
   \<and> sent (buildClientFunction (respond_with (JObj [])) ''https://api.example.com'' addHero ''addHero''
         no_params)
     = [request_args ''https://api.example.com'' addHero no_params]"
proof -
  let ?bad = "JObj [(''name'', JNum 7)]"
  let ?run = "buildClientFunction (respond_with (JObj [])) ''https://api.example.com'' addHero ''addHero''"
  have schema: "requestSchema addHero = Some (safeParse AddHeroRequestSchema)"
    by (simp add: addHero_def defineZodEndpoint_def)
  have rejected: "isl (safeParse AddHeroRequestSchema ?bad)"
    by (simp add: safeParse_def AddHeroRequestSchema_def invalid_type_def at_key_def)
  then have bad: "safeParse AddHeroRequestSchema ?bad
      = Inl (projl (safeParse AddHeroRequestSchema ?bad))"
    by simp
  have good: "safeParse AddHeroRequestSchema superman = Inr superman"
    by (simp add: safeParse_def AddHeroRequestSchema_def superman_def obj_define_def
        enumerated_before_def is_array_index_def is_digit_def)
  have omitted: "body no_params = None"
    by (simp add: no_params_def)
  have 1: "truthy_opt (body (no_params\<lparr>body := Some ?bad\<rparr>))
      \<and> body (no_params\<lparr>body := Some ?bad\<rparr>) = Some ?bad
      \<and> safeParse AddHeroRequestSchema ?bad = Inl (projl (safeParse AddHeroRequestSchema ?bad))"
    using bad by simp
  have 2: "body (no_params\<lparr>body := Some superman\<rparr>) = Some superman
      \<and> safeParse AddHeroRequestSchema superman = Inr superman"
    using good by simp
  have 3: "\<not> truthy_opt (body no_params)"
    using omitted by simp
  note t1 = request_validation_gate [OF schema, where iamRequest = "respond_with (JObj [])"
        and domain = "''https://api.example.com''" and key = "''addHero''"
        and params = "no_params\<lparr>body := Some ?bad\<rparr>" and b = ?bad
        and err = "projl (safeParse AddHeroRequestSchema ?bad)"]
  note t2 = request_validation_gate [OF schema, where iamRequest = "respond_with (JObj [])"
        and domain = "''https://api.example.com''" and key = "''addHero''"
        and params = "no_params\<lparr>body := Some superman\<rparr>" and b = superman and w = superman]
  note t3 = request_validation_gate [OF schema, where iamRequest = "respond_with (JObj [])"
        and domain = "''https://api.example.com''" and key = "''addHero''"
        and params = no_params]
  from t1 1 have "?run (no_params\<lparr>body := Some ?bad\<rparr>)
     = \<lparr> outcome = Inl (Error (''Validation error in apiClient.'' @ ''addHero'' @ '': '' @
                 message (projl (safeParse AddHeroRequestSchema ?bad)))),
         console = [console_error (''Validation error in apiClient.'' @ ''addHero'' @ '': '' @
                       message (projl (safeParse AddHeroRequestSchema ?bad)))
                     (errors (projl (safeParse AddHeroRequestSchema ?bad))) ?bad],
         sent = [] \<rparr>"
    by blast
  then have a: "?run (no_params\<lparr>body := Some ?bad\<rparr>)
     = \<lparr> outcome = Inl (Error (''Validation error in apiClient.addHero: '' @
                 message (projl (safeParse AddHeroRequestSchema ?bad)))),
         console = [console_error (''Validation error in apiClient.addHero: '' @
                       message (projl (safeParse AddHeroRequestSchema ?bad)))
                     (errors (projl (safeParse AddHeroRequestSchema ?bad))) ?bad],
         sent = [] \<rparr>"
    by simp
  from t2 2 have b: "sent (?run (no_params\<lparr>body := Some superman\<rparr>))
     = [request_args ''https://api.example.com'' addHero (no_params\<lparr>body := Some superman\<rparr>)]"
    by blast
  from t3 3 have c: "sent (?run no_params)
     = [request_args ''https://api.example.com'' addHero no_params]"
    by blast
  from rejected a good b omitted c show ?thesis
    by (intro conjI)
qed

text \<open>
  Claim C3. For an endpoint with a response schema, once the transport has returned a
  response, the invocation returns that response unchanged whether or not the schema accepts
  it; a rejected response adds one error record to the console and nothing else.
\<close>

theorem response_mismatch_is_logged_not_thrown:
  assumes "responseSchema endpoint = Some schema"
    and "request_validation endpoint key params = None"
    and "iamRequest (request_args domain endpoint params) = Inr response"
  shows "outcome (buildClientFunction iamRequest domain endpoint key params) = Inr response
    \<and> (schema response = Inl err \<longrightarrow>
          console (buildClientFunction iamRequest domain endpoint key params)
            = [console_error
                 (''Response validation error in apiClient.'' @ key @ '': '' @ message err)
                 (errors err) response,
               console_info (''apiClient.'' @ key) (method_name (method endpoint))
                 (domain @ arg_path (request_args domain endpoint params))])
    \<and> (schema response = Inr w \<longrightarrow>
          console (buildClientFunction iamRequest domain endpoint key params)
            = [console_info (''apiClient.'' @ key) (method_name (method endpoint))
                 (domain @ arg_path (request_args domain endpoint params))])"
  using assms by (simp add: buildClientFunction_def response_validation_def Let_def)

theorem response_mismatch_is_logged_not_thrown_witness:
  "buildClientFunction (respond_with (JObj [(''items'', JArr [])])) ''https://api.example.com''
     listHeroRescues ''listHeroRescues'' (no_params\<lparr>pathParameters := Some [(''hero'', ''Superman'')]\<rparr>)
   = \<lparr> outcome = Inr (JObj [(''items'', JArr [])]),
       console = [console_error ''Response validation error in apiClient.listHeroRescues: Required''
                    [ZodIssue [''rescues''] ''Required''] (JObj [(''items'', JArr [])]),
                  console_info ''apiClient.listHeroRescues'' ''GET''
                    ''https://api.example.com/heroes/Superman/rescues''],
       sent = [\<lparr> arg_body = None, arg_domain = ''https://api.example.com'', arg_headers = None,
                 arg_method = Some ''GET'', arg_path = ''/heroes/Superman/rescues'',
                 arg_query = None, allowedStatusCodes = None \<rparr>] \<rparr>"
proof -
  let ?p = "no_params\<lparr>pathParameters := Some [(''hero'', ''Superman'')]\<rparr>"
  let ?r = "JObj [(''items'', JArr [])]"
  let ?inv = "buildClientFunction (respond_with ?r) ''https://api.example.com''
     listHeroRescues ''listHeroRescues'' ?p"
  have schema: "responseSchema listHeroRescues = Some (safeParse ListHeroRescuesResponseSchema)"
    by (simp add: listHeroRescues_def defineZodEndpoint_def)
  have valid: "request_validation listHeroRescues ''listHeroRescues'' ?p = None"
    by (rule request_validation_falsy) (simp add: no_params_def)
  have resp: "respond_with ?r (request_args ''https://api.example.com'' listHeroRescues ?p) = Inr ?r"
    by (simp add: respond_with_def)
  have bad: "safeParse ListHeroRescuesResponseSchema ?r
      = Inl (ZodError ''Required'' [ZodIssue [''rescues''] ''Required''])"
    by (simp add: safeParse_def ListHeroRescuesResponseSchema_def at_key_def)
  have url: "arg_path (request_args ''https://api.example.com'' listHeroRescues ?p)
      = ''/heroes/Superman/rescues''"
    by (simp add: request_args_def request_url_def listHeroRescues_def defineZodEndpoint_def
        no_params_def encodeURIComponent_def encode_unit_def uri_unreserved_def)
  have sent: "sent ?inv = [request_args ''https://api.example.com'' listHeroRescues ?p]"
    using valid by (rule sent_after_validation)
  have args: "request_args ''https://api.example.com'' listHeroRescues ?p
      = \<lparr> arg_body = None, arg_domain = ''https://api.example.com'', arg_headers = None,
          arg_method = Some ''GET'', arg_path = ''/heroes/Superman/rescues'',
          arg_query = None, allowedStatusCodes = None \<rparr>"
    using url by (simp add: request_args_def listHeroRescues_def defineZodEndpoint_def no_params_def)
  have m: "method_name (method listHeroRescues) = ''GET''"
    by (simp add: listHeroRescues_def defineZodEndpoint_def)
  show ?thesis
    using response_mismatch_is_logged_not_thrown [where iamRequest = "respond_with ?r"
        and domain = "''https://api.example.com''" and endpoint = listHeroRescues
        and key = "''listHeroRescues''" and params = ?p and response = ?r
        and schema = "safeParse ListHeroRescuesResponseSchema"
        and err = "ZodError ''Required'' [ZodIssue [''rescues''] ''Required'']",
        OF schema valid resp]
      bad url sent args m
    by (cases ?inv) simp
qed

text \<open>
  An encoded path parameter has no \<^verbatim>\<open>$\<close>, so \<^verbatim>\<open>String.prototype.replace\<close> finds no
  replacement pattern in it and inserts it literally; and it has no brace, so it brings no
  new placeholder into the URL.
\<close>

lemma hex_upper_plain: "d < 16 \<Longrightarrow> hex_upper d \<notin> {CHR ''$'', CHR ''{'', CHR ''}''}"
proof -
  have all: "\<forall>d \<in> set [0 ..< 16]. hex_upper d \<notin> {CHR ''$'', CHR ''{'', CHR ''}''}"
    by code_simp
  assume "d < 16"
  then have "d \<in> set [0 ..< 16]" by simp
  with all show ?thesis by blast
qed

lemma percent_byte_plain:
  assumes "b < 256" and "c' \<in> set (percent_byte b)"
  shows "c' \<notin> {CHR ''$'', CHR ''{'', CHR ''}''}"
proof -
  have "b div 16 < 16" and "b mod 16 < 16" using assms(1) by simp_all
  then have "hex_upper (b div 16) \<notin> {CHR ''$'', CHR ''{'', CHR ''}''}"
    and "hex_upper (b mod 16) \<notin> {CHR ''$'', CHR ''{'', CHR ''}''}"
    by (simp_all add: hex_upper_plain del: insert_iff)
  then show ?thesis using assms(2) by (auto simp: percent_byte_def)
qed

lemma encode_unit_plain:
  assumes "c' \<in> set (encode_unit c)"
  shows "c' \<notin> {CHR ''$'', CHR ''{'', CHR ''}''}"
proof (cases "uri_unreserved c")
  case True
  then have "c' = c" using assms by (simp add: encode_unit_def)
  moreover have "c \<notin> {CHR ''$'', CHR ''{'', CHR ''}''}"
    using True by (auto simp: uri_unreserved_def)
  ultimately show ?thesis by simp
next
  case False
  have lt: "(of_char c :: nat) < 256" by simp
  have "(of_char c :: nat) < 64 * 64" using lt by linarith
  then have "(of_char c :: nat) div 64 < 64" by (rule less_mult_imp_div_less)
  then have hi: "192 + (of_char c :: nat) div 64 < 256" by simp
  have "(of_char c :: nat) mod 64 < 64" by simp
  then have lo: "128 + (of_char c :: nat) mod 64 < 256" by linarith
  from False assms consider "c' \<in> set (percent_byte (of_char c))"
    | "c' \<in> set (percent_byte (192 + of_char c div 64))"
    | "c' \<in> set (percent_byte (128 + of_char c mod 64))"
    by (auto simp: encode_unit_def Let_def split: if_splits)
  then show ?thesis
    using percent_byte_plain [OF lt] percent_byte_plain [OF hi] percent_byte_plain [OF lo]
    by cases blast+
qed

lemma encodeURIComponent_plain:
  "set (encodeURIComponent v) \<inter> {CHR ''$'', CHR ''{'', CHR ''}''} = {}"
  using encode_unit_plain by (fastforce simp: encodeURIComponent_def)

text \<open>
  Claim C7, evaluated on the code. \<^verbatim>\<open>url.replace\<close> with a string pattern replaces the
  first occurrence only: a template that names the same parameter twice is sent with the
  second placeholder still in it.
\<close>

theorem repeated_placeholder_survives:
  "sent (buildClientFunction (respond_with JNull) ''https://api.example.com'' sidekicks ''sidekicks''
           (no_params\<lparr>pathParameters := Some [(''hero'', ''Clark Kent'')]\<rparr>))
     = [\<lparr> arg_body = None, arg_domain = ''https://api.example.com'', arg_headers = None,
          arg_method = Some ''GET'', arg_path = ''/heroes/Clark%20Kent/sidekicks/{hero}'',
          arg_query = None, allowedStatusCodes = None \<rparr>]"
proof -
  have enc: "encodeURIComponent ''Clark Kent'' = ''Clark%20Kent''"
    by code_simp
  have v: "request_validation sidekicks ''sidekicks''
             (no_params\<lparr>pathParameters := Some [(''hero'', ''Clark Kent'')]\<rparr>) = None"
    by (simp add: request_validation_def sidekicks_def)
  show ?thesis
    using sent_after_validation [OF v] enc
    by (simp add: request_args_def request_url_def sidekicks_def no_params_def)
qed

theorem repeated_placeholder_survives_witness:
  "map arg_path
     (sent (buildClientFunction (respond_with JNull) ''https://api.example.com'' sidekicks ''sidekicks''
              (no_params\<lparr>pathParameters := Some [(''hero'', ''Clark Kent'')]\<rparr>)))
     \<noteq> [''/heroes/Clark%20Kent/sidekicks/Clark%20Kent'']"
  using repeated_placeholder_survives by simp

section \<open>Properties of signing and sending\<close>

lemma show_nat_500: "show_nat 500 = ''500''"
  by code_simp

lemma transport_response_example:
  "transport_response (answering res) (get_heroes\<lparr>allowedStatusCodes := codes\<rparr>) = Inr res"
  by (simp add: transport_response_def answering_def get_heroes_def clean_domain_def
      simple_URL_def signRequest_def example_env_def scope_header_def Let_def)

text \<open>
  Claim C8. For every response that the transport receives: a 2xx status, or a status in
  the allow-list of the call (\<^verbatim>\<open>[404]\<close> when the caller gives none), returns the response;
  every other status throws an error whose message carries the status code, the status
  text and the text of the response body.
\<close>

theorem status_allow_list:
  assumes "transport_response rt args = Inr res"
  shows "((200 \<le> status res \<and> status res \<le> 299)
            \<or> status res \<in> set (case allowedStatusCodes args of None \<Rightarrow> [404] | Some codes \<Rightarrow> codes)
          \<longrightarrow> makeIAMRequest rt args = Inr res)
       \<and> (\<not> (200 \<le> status res \<and> status res \<le> 299)
            \<and> status res \<notin> set (case allowedStatusCodes args of None \<Rightarrow> [404] | Some codes \<Rightarrow> codes)
          \<longrightarrow> makeIAMRequest rt args
              = Inl (Error (''Error making IAM request - status: '' @ show_nat (status res)
                      @ '' ('' @ statusText res @ ''), reason: '' @ text res)))"
  using assms by (auto simp: makeIAMRequest_def ok_def)

theorem status_allow_list_witness:
  "makeIAMRequest (answering server_error) get_heroes
     = Inl (Error ''Error making IAM request - status: 500 (Internal Server Error), reason: boom'')
   \<and> makeIAMRequest (answering server_error) (get_heroes\<lparr>allowedStatusCodes := Some [404, 500]\<rparr>)
     = Inr server_error"
proof -
  have 1: "transport_response (answering server_error) get_heroes = Inr server_error"
    using transport_response_example [of server_error None] by (simp add: get_heroes_def)
  have 2: "transport_response (answering server_error)
             (get_heroes\<lparr>allowedStatusCodes := Some [404, 500]\<rparr>) = Inr server_error"
    by (rule transport_response_example)
  show ?thesis
    using status_allow_list [OF 1] status_allow_list [OF 2] show_nat_500
    by (simp add: server_error_def get_heroes_def)
qed

text \<open>
  Claim C9, evaluated on the code. With \<^verbatim>\<open>AWS_DEFAULT_REGION\<close> unset the signer is built
  for the service \<^verbatim>\<open>execute-api\<close> and the empty region (\<^verbatim>\<open>process.env.AWS_DEFAULT_REGION || ""\<close>),
  not for \<^verbatim>\<open>us-east-1\<close>.
\<close>

theorem default_region_is_empty:
  "process_env (answering server_error) ''AWS_DEFAULT_REGION'' = None
   \<and> signer_init (answering server_error)
        \<lparr> accessKeyId = Some ''AKIDEXAMPLE'', secretAccessKey = Some ''secret'', sessionToken = None \<rparr>
     = \<lparr> service = ''execute-api'', region = [],
         credentials = \<lparr> accessKeyId = Some ''AKIDEXAMPLE'', secretAccessKey = Some ''secret'',
                         sessionToken = None \<rparr> \<rparr>
   \<and> signRequest (answering server_error)
        \<lparr> hostname = ''api.example.com'', request_method = ''GET'', request_headers = [],
          request_path = ''/heroes'', request_body = None, request_query = None \<rparr>
     = Inr \<lparr> hostname = ''api.example.com'', request_method = ''GET'',
             request_headers = [(''x-credential-scope'', ''/execute-api/aws4_request'')],
             request_path = ''/heroes'', request_body = None, request_query = None \<rparr>"
  by (simp add: answering_def example_env_def signer_init_def signRequest_def scope_header_def
      obj_define_def enumerated_before_def is_array_index_def is_digit_def Let_def)


lemma safeParse_a_rescue: "safeParse AddRescueRequestSchema a_rescue = Inr a_rescue"
  by (simp add: safeParse_def AddRescueRequestSchema_def rescueSchema_def a_rescue_def
      obj_define_def enumerated_before_def is_array_index_def is_digit_def)

lemma JSON_stringify_a_rescue:
  "JSON_stringify a_rescue
     = [CHR ''{'', CHR 0x22] @ ''hero'' @ [CHR 0x22, CHR '':'', CHR 0x22] @ ''Superman''
       @ [CHR 0x22, CHR '','', CHR 0x22] @ ''location'' @ [CHR 0x22, CHR '':'', CHR 0x22]
       @ ''Metropolis'' @ [CHR 0x22, CHR ''}'']"
  by (simp add: a_rescue_def QuoteJSONString_def quote_unit_def)

text \<open>
  Claim C1, as stated, fails: a GET endpoint invoked with a truthy body that passes its
  request schema hands the JSON text of that body to the transport.
\<close>

theorem get_with_body_counterexample:
  "method findRescues = GET
   \<and> sent (buildClientFunction (respond_with (JObj [(''rescues'', JArr [])]))
             ''https://api.example.com'' findRescues ''findRescues''
             (no_params\<lparr>body := Some a_rescue\<rparr>))
     = [\<lparr> arg_body = Some ([CHR ''{'', CHR 0x22] @ ''hero'' @ [CHR 0x22, CHR '':'', CHR 0x22]
                     @ ''Superman'' @ [CHR 0x22, CHR '','', CHR 0x22] @ ''location''
                     @ [CHR 0x22, CHR '':'', CHR 0x22] @ ''Metropolis'' @ [CHR 0x22, CHR ''}'']),
          arg_domain = ''https://api.example.com'', arg_headers = None,
          arg_method = Some ''GET'', arg_path = ''/rescues'', arg_query = None,
          allowedStatusCodes = None \<rparr>]"
proof -
  have v: "request_validation findRescues ''findRescues'' (no_params\<lparr>body := Some a_rescue\<rparr>) = None"
    using safeParse_a_rescue
    by (simp add: request_validation_def findRescues_def defineZodEndpoint_def a_rescue_def)
  show ?thesis
    using sent_after_validation [OF v] JSON_stringify_a_rescue
    by (simp add: request_args_def request_url_def findRescues_def defineZodEndpoint_def
        no_params_def a_rescue_def)
qed

text \<open>
  Claim C1, amended. Whether a body is serialized depends on the body, not on the method:
  an invocation that passes request validation hands exactly one request to the transport
  (one that fails hands none); that request carries no body when the supplied body is absent
  or falsy, and the JSON text of the body when it is truthy, under the method of the
  endpoint whatever it is; and \<^verbatim>\<open>makeIAMRequest\<close> copies the body it is given into the
  \<^verbatim>\<open>HttpRequest\<close> unchanged.
\<close>

theorem body_follows_truthiness_not_method:
  "(request_validation endpoint key params = None \<longrightarrow>
      sent (buildClientFunction iamRequest domain endpoint key params)
        = [request_args domain endpoint params])
   \<and> (request_validation endpoint key params \<noteq> None \<longrightarrow>
      sent (buildClientFunction iamRequest domain endpoint key params) = [])
   \<and> (\<not> truthy_opt (body params) \<longrightarrow> arg_body (request_args domain endpoint params) = None)
   \<and> (body params = Some b \<and> truthy b \<longrightarrow>
      arg_body (request_args domain endpoint params) = Some (JSON_stringify b))
   \<and> arg_method (request_args domain endpoint params) = Some (method_name (method endpoint))
   \<and> request_body (request_of rt args url) = arg_body args"
proof (intro conjI impI)
  assume "request_validation endpoint key params = None"
  then show "sent (buildClientFunction iamRequest domain endpoint key params)
      = [request_args domain endpoint params]"
    by (rule sent_after_validation)
next
  assume "request_validation endpoint key params \<noteq> None"
  then show "sent (buildClientFunction iamRequest domain endpoint key params) = []"
    by (auto simp: buildClientFunction_def)
next
  assume "\<not> truthy_opt (body params)"
  then show "arg_body (request_args domain endpoint params) = None"
    by (cases "body params") (simp_all add: request_args_def)
next
  assume "body params = Some b \<and> truthy b"
  then show "arg_body (request_args domain endpoint params) = Some (JSON_stringify b)"
    by (simp add: request_args_def)
next
  show "arg_method (request_args domain endpoint params) = Some (method_name (method endpoint))"
    by (simp add: request_args_def)
next
  show "request_body (request_of rt args url) = arg_body args"
    by (simp add: request_of_def)
qed

theorem body_follows_truthiness_not_method_witness:
  "sent (buildClientFunction (respond_with (JObj [(''rescues'', JArr [])]))
      ''https://api.example.com'' listHeroRescues ''listHeroRescues''
      (no_params\<lparr>body := Some JNull, pathParameters := Some [(''hero'', ''Superman'')]\<rparr>))
     = [request_args ''https://api.example.com'' listHeroRescues
          (no_params\<lparr>body := Some JNull, pathParameters := Some [(''hero'', ''Superman'')]\<rparr>)]
   \<and> arg_body (request_args ''https://api.example.com'' listHeroRescues
          (no_params\<lparr>body := Some JNull, pathParameters := Some [(''hero'', ''Superman'')]\<rparr>)) = None
   \<and> sent (buildClientFunction (respond_with (JObj [])) ''https://api.example.com''
          addRescue ''addRescue'' (no_params\<lparr>body := Some (JObj [])\<rparr>)) = []
   \<and> arg_body (request_args ''https://api.example.com'' addRescue
          (no_params\<lparr>body := Some a_rescue\<rparr>)) = Some (JSON_stringify a_rescue)
   \<and> arg_method (request_args ''https://api.example.com'' addRescue
          (no_params\<lparr>body := Some a_rescue\<rparr>)) = Some ''POST''"
proof -
  let ?p = "no_params\<lparr>body := Some JNull, pathParameters := Some [(''hero'', ''Superman'')]\<rparr>"
  have falsy: "\<not> truthy_opt (body ?p)" by simp
  have v1: "request_validation listHeroRescues ''listHeroRescues'' ?p = None"
    using falsy by (rule request_validation_falsy)
  have v2: "request_validation addRescue ''addRescue'' (no_params\<lparr>body := Some (JObj [])\<rparr>) \<noteq> None"
    by (simp add: request_validation_def addRescue_def defineZodEndpoint_def safeParse_def
        AddRescueRequestSchema_def rescueSchema_def Let_def)
  have t: "body (no_params\<lparr>body := Some a_rescue\<rparr>) = Some a_rescue \<and> truthy a_rescue"
    by (simp add: a_rescue_def)
  have m: "method_name (method addRescue) = ''POST''"
    by (simp add: addRescue_def defineZodEndpoint_def)
  show ?thesis
    using body_follows_truthiness_not_method [where endpoint = listHeroRescues
        and key = "''listHeroRescues''" and params = ?p
        and iamRequest = "respond_with (JObj [(''rescues'', JArr [])])"
        and domain = "''https://api.example.com''"]
      body_follows_truthiness_not_method [where endpoint = addRescue and key = "''addRescue''"
        and params = "no_params\<lparr>body := Some (JObj [])\<rparr>"
        and iamRequest = "respond_with (JObj [])" and domain = "''https://api.example.com''"]
      body_follows_truthiness_not_method [where endpoint = addRescue
        and params = "no_params\<lparr>body := Some a_rescue\<rparr>" and b = a_rescue
        and domain = "''https://api.example.com''"]
      falsy v1 v2 t m
    by simp
qed

theorem default_region_is_empty_witness:
  "region (signer_init (answering server_error)
      \<lparr> accessKeyId = Some ''AKIDEXAMPLE'', secretAccessKey = Some ''secret'', sessionToken = None \<rparr>)
     \<noteq> ''us-east-1''"
  using default_region_is_empty by simp

section \<open>Properties of own-property enumeration\<close>

lemma obj_insert_map_fst:
  "map fst (obj_insert k v ((k', v') # obj)) =
     (if enumerated_before k k' then k # k' # map fst obj
      else k' # map fst (obj_insert k v obj))"
  by simp

lemma obj_insert_keys:
  "set (map fst (obj_insert k v obj)) = insert k (set (map fst obj))"
proof (induction obj)
  case Nil
  show ?case by simp
next
  case (Cons kv obj)
  obtain k' v' where kv: "kv = (k', v')" by (cases kv)
  show ?case
    unfolding kv obj_insert_map_fst using Cons.IH by (simp add: insert_commute)
qed

lemma obj_insert_distinct:
  "distinct (map fst obj) \<Longrightarrow> k \<notin> set (map fst obj) \<Longrightarrow> distinct (map fst (obj_insert k v obj))"
proof (induction obj)
  case Nil
  show ?case by simp
next
  case (Cons kv obj)
  obtain k' v' where kv: "kv = (k', v')" by (cases kv)
  have "k' \<notin> set (map fst (obj_insert k v obj))"
    using Cons.prems kv unfolding obj_insert_keys by auto
  moreover have "distinct (map fst (obj_insert k v obj))"
    using Cons by simp
  ultimately show ?case
    unfolding kv obj_insert_map_fst using Cons.prems kv by simp
qed

lemma obj_define_keys_old:
  "k \<in> set (map fst obj) \<Longrightarrow> map fst (obj_define k v obj) = map fst obj"
  by (auto simp: obj_define_def)

lemma obj_define_new:
  "k \<notin> set (map fst obj) \<Longrightarrow> obj_define k v obj = obj_insert k v obj"
  by (auto simp: obj_define_def)



lemma array_index_inj:
  "is_array_index k \<Longrightarrow> is_array_index k' \<Longrightarrow> digits_value k = digits_value k' \<Longrightarrow> k = k'"
  by (metis is_array_index_def)

lemma obj_insert_order:
  "own_key_order (map fst obj) \<Longrightarrow> k \<notin> set (map fst obj) \<Longrightarrow>
     own_key_order (map fst (obj_insert k v obj))"
proof (induction obj)
  case Nil
  then show ?case by (simp add: own_key_order_def)
next
  case (Cons kv obj)
  obtain k' v' where kv: "kv = (k', v')" by (cases kv)
  have tail: "own_key_order (map fst obj)"
    using Cons.prems(1) by (simp add: own_key_order_def)
  have later: "\<forall>y \<in> set (map fst obj).
      is_array_index y \<longrightarrow> is_array_index k' \<and> digits_value k' < digits_value y"
    using Cons.prems(1) kv by (simp add: own_key_order_def)
  show ?case
  proof (cases "enumerated_before k k'")
    case True
    have "\<forall>y \<in> set (map fst (kv # obj)).
        is_array_index y \<longrightarrow> is_array_index k \<and> digits_value k < digits_value y"
      using True later kv by (fastforce simp: enumerated_before_def)
    then show ?thesis
      using True Cons.prems(1) kv unfolding obj_insert_map_fst own_key_order_def by simp
  next
    case False
    have ne: "k \<noteq> k'" using Cons.prems kv by auto
    have rest: "own_key_order (map fst (obj_insert k v obj))"
      using Cons.IH tail Cons.prems(2) by simp
    have new: "is_array_index k \<longrightarrow> is_array_index k' \<and> digits_value k' < digits_value k"
      using False ne array_index_inj [of k k'] by (auto simp: enumerated_before_def not_less le_less)
    have "\<forall>y \<in> set (map fst (obj_insert k v obj)).
        is_array_index y \<longrightarrow> is_array_index k' \<and> digits_value k' < digits_value y"
      unfolding obj_insert_keys using new later by simp
    then show ?thesis
      using False rest unfolding kv obj_insert_map_fst own_key_order_def by simp
  qed
qed

lemma own_key_order_split:
  "own_key_order ks \<Longrightarrow>
     filter is_array_index ks @ filter (\<lambda>k. \<not> is_array_index k) ks = ks"
proof (induction ks)
  case Nil
  show ?case by simp
next
  case (Cons k ks)
  have tail: "own_key_order ks" using Cons.prems by (simp add: own_key_order_def)
  show ?case
  proof (cases "is_array_index k")
    case True
    then show ?thesis using Cons.IH tail by simp
  next
    case False
    then have "\<forall>y \<in> set ks. \<not> is_array_index y"
      using Cons.prems by (auto simp: own_key_order_def)
    then have "filter is_array_index ks = []" and "filter (\<lambda>k. \<not> is_array_index k) ks = ks"
      by (simp_all add: filter_empty_conv)
    then show ?thesis using False by simp
  qed
qed

lemma own_key_order_indices:
  "own_key_order ks \<Longrightarrow> sorted_wrt (<) (map digits_value (filter is_array_index ks))"
proof -
  assume "own_key_order ks"
  then have "sorted_wrt (\<lambda>k k'. is_array_index k' \<longrightarrow> is_array_index k \<and> digits_value k < digits_value k')
      (filter is_array_index ks)"
    unfolding own_key_order_def by (rule sorted_wrt_filter)
  then have "sorted_wrt (\<lambda>k k'. digits_value k < digits_value k') (filter is_array_index ks)"
    by (rule sorted_wrt_mono_rel [rotated]) simp
  then show ?thesis by (simp add: sorted_wrt_map)
qed



lemma obj_define_order:
  "own_key_order (map fst obj) \<Longrightarrow> own_key_order (map fst (obj_define k v obj))"
  using obj_insert_order obj_define_keys_old obj_define_new by metis

lemma obj_define_keys:
  "set (map fst (obj_define k v obj)) = insert k (set (map fst obj))"
  using obj_define_keys_old [of k obj v] obj_define_new [of k obj v] obj_insert_keys [of k v obj]
  by (cases "k \<in> set (map fst obj)") auto

lemma obj_define_distinct:
  "distinct (map fst obj) \<Longrightarrow> distinct (map fst (obj_define k v obj))"
  using obj_define_keys_old [of k obj v] obj_define_new [of k obj v] obj_insert_distinct [of obj k v]
  by (cases "k \<in> set (map fst obj)") auto

lemma obj_insert_others:
  "filter (\<lambda>x. \<not> is_array_index x) (map fst (obj_insert k v obj))
     = filter (\<lambda>x. \<not> is_array_index x) (map fst obj) @ (if is_array_index k then [] else [k])"
  by (induction obj) (auto simp: enumerated_before_def)

section \<open>Properties of the path-parameter shape\<close>

lemma first_occurrences_snoc:
  "first_occurrences (xs @ [x])
     = (if x \<in> set xs then first_occurrences xs else first_occurrences xs @ [x])"
  by (simp add: first_occurrences_def)

lemma set_first_occurrences: "set (first_occurrences xs) = set xs"
  by (simp add: first_occurrences_def)

lemma distinct_first_occurrences: "distinct (first_occurrences xs)"
  by (simp add: first_occurrences_def)

lemma filter_first_occurrences:
  "filter P (first_occurrences xs) = first_occurrences (filter P xs)"
  by (simp add: first_occurrences_def rev_filter remdups_filter)

lemma path_parameters_fold:
  "''__proto__'' \<notin> set toks \<Longrightarrow>
     foldl (\<lambda>params name. case params of None \<Rightarrow> None | Some obj \<Rightarrow> obj_assign name ZString obj)
       (Some acc) toks
     = Some (foldl (\<lambda>obj name. obj_define name ZString obj) acc toks)"
  by (induction toks arbitrary: acc) (auto simp: obj_assign_def)

lemma obj_insert_set: "set (obj_insert k v obj) = insert (k, v) (set obj)"
proof (induction obj)
  case Nil
  show ?case by simp
next
  case (Cons kv obj)
  obtain k' v' where kv: "kv = (k', v')" by (cases kv)
  show ?case
    using Cons.IH unfolding kv by (cases "enumerated_before k k'") auto
qed

lemma obj_define_values:
  assumes "\<forall>kv \<in> set obj. snd kv = c"
  shows "\<forall>kv \<in> set (obj_define k c obj). snd kv = c"
proof (cases "k \<in> fst ` set obj")
  case True
  then have "obj_define k c obj = map (\<lambda>(k', v'). if k' = k then (k', c) else (k', v')) obj"
    by (simp add: obj_define_def)
  then show ?thesis using assms by (auto split: if_splits)
next
  case False
  then have "obj_define k c obj = obj_insert k c obj"
    by (simp add: obj_define_def)
  then show ?thesis using assms by (simp add: obj_insert_set)
qed

lemma shape_values:
  "\<forall>kv \<in> set (foldl (\<lambda>obj name. obj_define name c obj) [] toks). snd kv = c"
proof (induction toks rule: rev_induct)
  case Nil
  show ?case by simp
next
  case (snoc t toks)
  then show ?case
    using obj_define_values [of "foldl (\<lambda>obj name. obj_define name c obj) [] toks" c t]
    by simp
qed

lemma shape_keys:
  "set (map fst (foldl (\<lambda>obj name. obj_define name v obj) [] toks)) = set toks
   \<and> distinct (map fst (foldl (\<lambda>obj name. obj_define name v obj) [] toks))
   \<and> own_key_order (map fst (foldl (\<lambda>obj name. obj_define name v obj) [] toks))
   \<and> filter (\<lambda>k. \<not> is_array_index k) (map fst (foldl (\<lambda>obj name. obj_define name v obj) [] toks))
       = first_occurrences (filter (\<lambda>k. \<not> is_array_index k) toks)"
proof (induction toks rule: rev_induct)
  case Nil
  show ?case by (simp add: own_key_order_def first_occurrences_def)
next
  case (snoc t toks)
  let ?obj = "foldl (\<lambda>obj name. obj_define name v obj) [] toks"
  have step: "foldl (\<lambda>obj name. obj_define name v obj) [] (toks @ [t]) = obj_define t v ?obj"
    by simp
  have others: "filter (\<lambda>k. \<not> is_array_index k) (map fst (obj_define t v ?obj))
      = first_occurrences (filter (\<lambda>k. \<not> is_array_index k) (toks @ [t]))"
  proof (cases "t \<in> set toks")
    case True
    then have "map fst (obj_define t v ?obj) = map fst ?obj"
      using snoc obj_define_keys_old [of t ?obj v] by simp
    then show ?thesis using True snoc by (simp add: first_occurrences_snoc)
  next
    case False
    then have "obj_define t v ?obj = obj_insert t v ?obj"
      using snoc obj_define_new [of t ?obj v] by simp
    then show ?thesis
      using False snoc obj_insert_others [of t v ?obj] by (simp add: first_occurrences_snoc)
  qed
  show ?case
    unfolding step
    using snoc obj_define_keys [of t v ?obj] obj_define_distinct [of ?obj t v]
      obj_define_order [of ?obj t v] others
    by simp
qed

lemma strictly_sorted_unique:
  fixes f :: "'a \<Rightarrow> 'b::linorder"
  assumes "sorted_wrt (<) (map f xs)" and "sorted_wrt (<) (map f ys)" and "set xs = set ys"
  shows "xs = ys"
proof -
  have "set (map f xs) = set (map f ys)"
    using assms(3) by simp
  then have "map f xs = map f ys"
    using assms(1,2) strict_sorted_iff [of "map f xs"] strict_sorted_iff [of "map f ys"]
      sorted_distinct_set_unique [of "map f xs" "map f ys"]
    by blast
  moreover have "inj_on f (set xs \<union> set ys)"
    using assms(1,3) strict_sorted_iff [of "map f xs"] by (simp add: distinct_map)
  ultimately show ?thesis by (simp add: inj_on_map_eq_map)
qed

lemma sorted_indices:
  assumes "distinct ks" and "\<forall>k \<in> set ks. is_array_index k"
  shows "sorted_wrt (<) (map digits_value (sort_key digits_value ks))"
proof -
  have "inj_on digits_value (set ks)"
    using assms(2) array_index_inj by (auto simp: inj_on_def)
  then have "distinct (map digits_value (sort_key digits_value ks))"
    using assms(1) by (simp add: distinct_map)
  then show ?thesis
    using strict_sorted_iff [of "map digits_value (sort_key digits_value ks)"] by simp
qed

text \<open>
  The scan finds the tokens of a template that is written out: text without an opening
  brace, then a non-empty name without a closing brace between braces, and so on.
\<close>

lemma paramRegex_matches_skip:
  "CHR ''{'' \<notin> set sep \<Longrightarrow> paramRegex_matches (sep @ s) = paramRegex_matches s"
  by (induction sep) (auto simp: Let_def)

lemma paramRegex_matches_token:
  assumes "name \<noteq> []" and "CHR ''}'' \<notin> set name"
  shows "paramRegex_matches (''{'' @ name @ ''}'' @ s) = name # paramRegex_matches s"
proof -
  have "takeWhile (\<lambda>x. x \<noteq> CHR ''}'') (name @ CHR ''}'' # s) = name"
    using assms(2) by (subst takeWhile_append2) auto
  moreover have "dropWhile (\<lambda>x. x \<noteq> CHR ''}'') (name @ CHR ''}'' # s) = CHR ''}'' # s"
    using assms(2) by (subst dropWhile_append2) auto
  ultimately show ?thesis using assms(1) by (simp add: Let_def)
qed

lemma paramRegex_matches_template:
  assumes "\<forall>(sep, name) \<in> set segs. CHR ''{'' \<notin> set sep \<and> name \<noteq> [] \<and> CHR ''}'' \<notin> set name"
    and "CHR ''{'' \<notin> set tail"
  shows "paramRegex_matches (template segs tail) = map snd segs"
  using assms
proof (induction segs)
  case Nil
  then show ?case using paramRegex_matches_skip [of tail "[]"] by simp
next
  case (Cons seg segs)
  obtain sep name where seg: "seg = (sep, name)" by (cases seg)
  have "paramRegex_matches (template (seg # segs) tail)
      = paramRegex_matches (''{'' @ name @ ''}'' @ template segs tail)"
    unfolding seg template.simps using Cons.prems(1) seg paramRegex_matches_skip by simp
  also have "\<dots> = name # paramRegex_matches (template segs tail)"
    using Cons.prems(1) seg by (intro paramRegex_matches_token) auto
  finally show ?case using Cons seg by simp
qed

text \<open>
  Claim C6, as stated, fails: in \<^verbatim>\<open>/matrix/{row}/{0}\<close> the token \<^verbatim>\<open>row\<close> occurs first, but
  the key \<^verbatim>\<open>0\<close> is an array index and JavaScript enumerates it before \<^verbatim>\<open>row\<close>.
\<close>

theorem numeric_token_counterexample:
  "paramRegex_matches ''/matrix/{row}/{0}'' = [''row'', ''0'']
   \<and> zodPathParametersSchema ''/matrix/{row}/{0}''
       = Some (ZObject [(''0'', ZString), (''row'', ZString)])"
proof -
  have toks: "paramRegex_matches ''/matrix/{row}/{0}'' = [''row'', ''0'']"
    by (simp add: Let_def)
  have idx: "is_array_index ''0''" "\<not> is_array_index ''row''"
    by (simp_all add: is_array_index_def is_digit_def digits_value_def show_nat.simps digit_char_def)
  show ?thesis
    using toks idx
    by (simp add: zodPathParametersSchema_def path_parameters_def obj_assign_def obj_define_def
        enumerated_before_def)
qed

text \<open>
  Claim C6, amended. For every path template none of whose tokens is \<^verbatim>\<open>__proto__\<close>, the
  derived shape has exactly the unique token names as keys, each mapped to a required
  string; duplicate names collapse to one key; the keys that are array indices come first,
  in ascending numeric order, and the other keys follow in order of first occurrence in the
  template. When no token is an array index the keys are in order of first occurrence.
\<close>

theorem path_parameter_shape:
  assumes "''__proto__'' \<notin> set (paramRegex_matches p)"
  shows "zodPathParametersSchema p
      = Some (ZObject (map (\<lambda>k. (k, ZString))
                (enumeration_order (first_occurrences (paramRegex_matches p)))))
    \<and> ((\<forall>t \<in> set (paramRegex_matches p). \<not> is_array_index t) \<longrightarrow>
         zodPathParametersSchema p
           = Some (ZObject (map (\<lambda>k. (k, ZString)) (first_occurrences (paramRegex_matches p)))))"
proof -
  let ?toks = "paramRegex_matches p"
  let ?obj = "foldl (\<lambda>obj name. obj_define name ZString obj) [] ?toks"
  let ?ks = "map fst ?obj"
  let ?U = "first_occurrences ?toks"
  have schema: "zodPathParametersSchema p = Some (ZObject ?obj)"
    using path_parameters_fold [OF assms, of "[]"]
    by (simp add: zodPathParametersSchema_def path_parameters_def)
  have "map (\<lambda>kv. (fst kv, ZString)) ?obj = map (\<lambda>kv. kv) ?obj"
    using shape_values [of ZString ?toks] by (intro map_cong) (auto simp: prod_eq_iff)
  then have obj: "?obj = map (\<lambda>k. (k, ZString)) ?ks"
    by (simp add: comp_def)
  have keys: "set ?ks = set ?toks" and dist: "distinct ?ks" and order: "own_key_order ?ks"
    and others: "filter (\<lambda>k. \<not> is_array_index k) ?ks
                   = first_occurrences (filter (\<lambda>k. \<not> is_array_index k) ?toks)"
    using shape_keys [of ZString ?toks] by simp_all
  have "sorted_wrt (<) (map digits_value (filter is_array_index ?ks))"
    using order by (rule own_key_order_indices)
  moreover have "sorted_wrt (<) (map digits_value (sort_key digits_value (filter is_array_index ?U)))"
    by (rule sorted_indices) (simp_all add: distinct_first_occurrences)
  moreover have "set (filter is_array_index ?ks) = set (sort_key digits_value (filter is_array_index ?U))"
    using keys by (simp add: set_first_occurrences del: set_map)
  ultimately have indices: "filter is_array_index ?ks = sort_key digits_value (filter is_array_index ?U)"
    by (rule strictly_sorted_unique)
  have "?ks = filter is_array_index ?ks @ filter (\<lambda>k. \<not> is_array_index k) ?ks"
    using own_key_order_split [OF order] by simp
  then have ks: "?ks = enumeration_order ?U"
    using indices others by (simp add: enumeration_order_def filter_first_occurrences)
  have general: "zodPathParametersSchema p = Some (ZObject (map (\<lambda>k. (k, ZString)) (enumeration_order ?U)))"
    using schema obj ks by simp
  have "enumeration_order ?U = ?U" if "\<forall>t \<in> set ?toks. \<not> is_array_index t"
  proof -
    have "filter is_array_index ?U = []" and "filter (\<lambda>k. \<not> is_array_index k) ?U = ?U"
      using that by (simp_all add: filter_empty_conv set_first_occurrences)
    then show ?thesis by (simp add: enumeration_order_def)
  qed
  then show ?thesis using general by simp
qed

theorem path_parameter_shape_witness:
  "zodPathParametersSchema ''/users/{userId}/posts/{postId}/likes/{userId}''
     = Some (ZObject [(''userId'', ZString), (''postId'', ZString)])
   \<and> zodPathParametersSchema ''/grid/{y}/{10}/{x}/{2}''
     = Some (ZObject [(''2'', ZString), (''10'', ZString), (''y'', ZString), (''x'', ZString)])"
proof -
  have t1: "paramRegex_matches ''/users/{userId}/posts/{postId}/likes/{userId}''
      = [''userId'', ''postId'', ''userId'']"
    by (simp add: Let_def)
  have t2: "paramRegex_matches ''/grid/{y}/{10}/{x}/{2}'' = [''y'', ''10'', ''x'', ''2'']"
    by (simp add: Let_def)
  have idx: "\<not> is_array_index ''userId''" "\<not> is_array_index ''postId''"
     "\<not> is_array_index ''y''" "\<not> is_array_index ''x''"
     "is_array_index ''10''" "is_array_index ''2''"
    by (simp_all add: is_array_index_def is_digit_def digits_value_def show_nat.simps digit_char_def)
  have dv: "digits_value ''10'' = 10" "digits_value ''2'' = 2"
    by (simp_all add: digits_value_def)
  have p1: "''__proto__'' \<notin> set (paramRegex_matches ''/users/{userId}/posts/{postId}/likes/{userId}'')"
    unfolding t1 by simp
  have p2: "''__proto__'' \<notin> set (paramRegex_matches ''/grid/{y}/{10}/{x}/{2}'')"
    unfolding t2 by simp
  show ?thesis
    using path_parameter_shape [OF p1] path_parameter_shape [OF p2]
    unfolding t1 t2
    by (simp add: first_occurrences_def enumeration_order_def idx dv)
qed

section \<open>Reading back what JSON.stringify wrote\<close>





lemma parse_chars_QuoteJSONString:
  "QuoteJSONString t @ r = CHR 0x22 # concat (map quote_unit t) @ CHR 0x22 # r"
  by (simp add: QuoteJSONString_def)
























section \<open>The bound on the calls of the JSON reader\<close>

text \<open>
  Every reader consumes at least one character of a text it reads, so the readers of arrays
  and objects are called on shorter and shorter texts; from twice the length of the text
  plus one on, a larger bound changes nothing in what \<open>parse_value\<close> answers, be it a value
  or a refusal.
\<close>

lemma skip_ws_length: "length (skip_ws s) \<le> length s"
  by (simp add: skip_ws_def length_dropWhile_le)

lemma skip_ws_shorter: "skip_ws s = c # r \<Longrightarrow> length r < length s"
  using skip_ws_length [of s] by simp

lemma parse_chars_shorter: "parse_chars s = Some (t, r) \<Longrightarrow> length r < length s"
proof (induction s arbitrary: t rule: parse_chars.induct)
  case 1
  then show ?case by simp
next
  case (2 c s)
  then show ?case
    by (fastforce split: if_splits list.splits option.splits)
qed

lemma parse_nat_shorter: "parse_nat s = Some (n, r) \<Longrightarrow> length r < length s"
proof -
  assume a: "parse_nat s = Some (n, r)"
  then have "takeWhile is_digit s \<noteq> []" and "r = dropWhile is_digit s"
    by (auto simp: parse_nat_def Let_def split: if_splits)
  moreover have "length (takeWhile is_digit s) + length (dropWhile is_digit s) = length s"
    by (metis length_append takeWhile_dropWhile_id)
  ultimately show ?thesis by (cases "takeWhile is_digit s") auto
qed

lemma parse_number_shorter: "parse_number s = Some (i, r) \<Longrightarrow> length r < length s"
  using parse_nat_shorter
  by (fastforce simp: parse_number_def split: list.splits if_splits)

lemma parse_value_Suc_shorter:
  assumes el: "\<And>s xs r. parse_elements n s = Some (xs, r) \<Longrightarrow> length r < length s"
    and me: "\<And>s kvs r. parse_members n s = Some (kvs, r) \<Longrightarrow> length r < length s"
    and p: "parse_value (Suc n) s = Some (v, r)"
  shows "length r < length s"
proof -
  obtain c r0 where s: "skip_ws s = c # r0"
    using p by (cases "skip_ws s") auto
  have r0: "length r0 < length s" using s by (rule skip_ws_shorter)
  consider "c = CHR ''[''" | "c \<noteq> CHR ''[''" "c = CHR ''{''"
    | "c \<noteq> CHR ''[''" "c \<noteq> CHR ''{''" "c = CHR 0x22"
    | "c \<noteq> CHR ''[''" "c \<noteq> CHR ''{''" "c \<noteq> CHR 0x22"
    by blast
  then show ?thesis
  proof cases
    case 1
    obtain c' r' where s': "skip_ws r0 = c' # r'"
      using p s 1 by (cases "skip_ws r0") auto
    have "length r' < length r0" using s' by (rule skip_ws_shorter)
    then show ?thesis
      using p s s' 1 r0 el [of r0] by (auto split: if_splits)
  next
    case 2
    obtain c' r' where s': "skip_ws r0 = c' # r'"
      using p s 2 by (cases "skip_ws r0") auto
    have "length r' < length r0" using s' by (rule skip_ws_shorter)
    then show ?thesis
      using p s s' 2 r0 me [of r0] by (auto split: if_splits)
  next
    case 3
    then show ?thesis
      using p s r0 parse_chars_shorter [of r0] by auto
  next
    case 4
    have "length (c # r0) \<le> length s"
      using s skip_ws_length [of s] by simp
    moreover have "length (drop 4 (c # r0)) < length (c # r0)"
      and "length (drop 5 (c # r0)) < length (c # r0)" by simp_all
    ultimately show ?thesis
      using p s 4 parse_number_shorter [of "c # r0"]
      by (auto split: if_splits simp del: drop_Cons_numeral length_drop)
  qed
qed

lemma parse_elements_Suc_shorter:
  assumes va: "\<And>s v r. parse_value n s = Some (v, r) \<Longrightarrow> length r < length s"
    and el: "\<And>s xs r. parse_elements n s = Some (xs, r) \<Longrightarrow> length r < length s"
    and p: "parse_elements (Suc n) s = Some (xs, r)"
  shows "length r < length s"
proof -
  obtain x r1 where v: "parse_value n s = Some (x, r1)"
    using p by (cases "parse_value n s") auto
  obtain c r2 where s: "skip_ws r1 = c # r2"
    using p v by (cases "skip_ws r1") auto
  have "length r1 < length s" using v by (rule va)
  moreover have "length r2 < length r1" using s by (rule skip_ws_shorter)
  ultimately show ?thesis
    using p v s el [of r2] by (auto split: if_splits)
qed

lemma parse_members_Suc_shorter:
  assumes va: "\<And>s v r. parse_value n s = Some (v, r) \<Longrightarrow> length r < length s"
    and me: "\<And>s kvs r. parse_members n s = Some (kvs, r) \<Longrightarrow> length r < length s"
    and p: "parse_members (Suc n) s = Some (kvs, r)"
  shows "length r < length s"
proof -
  obtain q r0 where s0: "skip_ws s = q # r0"
    using p by (cases "skip_ws s") auto
  have q: "q = CHR 0x22" using p s0 by (auto split: if_splits)
  obtain k r1 where k: "parse_chars r0 = Some (k, r1)"
    using p s0 q by (cases "parse_chars r0") auto
  obtain c r2 where s1: "skip_ws r1 = c # r2"
    using p s0 q k by (cases "skip_ws r1") auto
  have c: "c = CHR '':''" using p s0 q k s1 by (auto split: if_splits)
  obtain v r3 where v: "parse_value n r2 = Some (v, r3)"
    using p s0 q k s1 c by (cases "parse_value n r2") auto
  obtain c' r4 where s3: "skip_ws r3 = c' # r4"
    using p s0 q k s1 c v by (cases "skip_ws r3") auto
  have "length r0 < length s" using s0 by (rule skip_ws_shorter)
  moreover have "length r1 < length r0" using k by (rule parse_chars_shorter)
  moreover have "length r2 < length r1" using s1 by (rule skip_ws_shorter)
  moreover have "length r3 < length r2" using v by (rule va)
  moreover have "length r4 < length r3" using s3 by (rule skip_ws_shorter)
  ultimately show ?thesis
    using p s0 q k s1 c v s3 me [of r4] by (auto split: if_splits)
qed

lemma parse_shorter:
  "(\<forall>s v r. parse_value n s = Some (v, r) \<longrightarrow> length r < length s)
   \<and> (\<forall>s xs r. parse_elements n s = Some (xs, r) \<longrightarrow> length r < length s)
   \<and> (\<forall>s kvs r. parse_members n s = Some (kvs, r) \<longrightarrow> length r < length s)"
proof (induction n)
  case 0
  show ?case by simp
next
  case (Suc n)
  show ?case
    using Suc parse_value_Suc_shorter [of n] parse_elements_Suc_shorter [of n]
      parse_members_Suc_shorter [of n]
    by blast
qed

lemma parse_value_Suc_cong:
  assumes "\<And>r. length r < length s \<Longrightarrow> parse_elements m r = parse_elements n r"
    and "\<And>r. length r < length s \<Longrightarrow> parse_members m r = parse_members n r"
  shows "parse_value (Suc m) s = parse_value (Suc n) s"
proof (cases "skip_ws s")
  case Nil
  then show ?thesis by simp
next
  case (Cons c r0)
  then have "length r0 < length s" by (rule skip_ws_shorter)
  then have "parse_elements m r0 = parse_elements n r0" and "parse_members m r0 = parse_members n r0"
    using assms by simp_all
  then show ?thesis using Cons by (simp split: list.splits)
qed

lemma parse_elements_Suc_cong:
  assumes "parse_value m s = parse_value n s"
    and "\<And>r. length r + 1 < length s \<Longrightarrow> parse_elements m r = parse_elements n r"
  shows "parse_elements (Suc m) s = parse_elements (Suc n) s"
proof (cases "parse_value n s")
  case None
  then show ?thesis using assms(1) by simp
next
  case (Some a)
  obtain x r1 where a: "a = (x, r1)" by (cases a)
  have r1: "length r1 < length s" using Some a parse_shorter [of n] by blast
  show ?thesis
  proof (cases "skip_ws r1")
    case Nil
    then show ?thesis using Some a assms(1) by simp
  next
    case (Cons c r2)
    then have "length r2 < length r1" by (rule skip_ws_shorter)
    then have "parse_elements m r2 = parse_elements n r2"
      using r1 assms(2) by simp
    then show ?thesis using Some a Cons assms(1) by simp
  qed
qed

lemma parse_members_Suc_cong:
  assumes "\<And>r. length r + 2 < length s \<Longrightarrow> parse_value m r = parse_value n r"
    and "\<And>r. length r + 2 < length s \<Longrightarrow> parse_members m r = parse_members n r"
  shows "parse_members (Suc m) s = parse_members (Suc n) s"
proof (cases "skip_ws s")
  case Nil
  then show ?thesis by simp
next
  case s0: (Cons q r0)
  have r0: "length r0 < length s" using s0 by (rule skip_ws_shorter)
  show ?thesis
  proof (cases "parse_chars r0")
    case None
    then show ?thesis using s0 by simp
  next
    case (Some a)
    obtain k r1 where a: "a = (k, r1)" by (cases a)
    have r1: "length r1 < length r0" using Some a parse_chars_shorter by simp
    show ?thesis
    proof (cases "skip_ws r1")
      case Nil
      then show ?thesis using s0 Some a by simp
    next
      case s1: (Cons c r2)
      have r2: "length r2 < length r1" using s1 by (rule skip_ws_shorter)
      then have v: "parse_value m r2 = parse_value n r2"
        using r0 r1 assms(1) by simp
      show ?thesis
      proof (cases "parse_value n r2")
        case None
        then show ?thesis using s0 Some a s1 v by simp
      next
        case pv: (Some b)
        obtain w r3 where b: "b = (w, r3)" by (cases b)
        have r3: "length r3 < length r2" using pv b parse_shorter [of n] by blast
        show ?thesis
        proof (cases "skip_ws r3")
          case Nil
          then show ?thesis using s0 Some a s1 v pv b by simp
        next
          case s3: (Cons c' r4)
          have "length r4 < length r3" using s3 by (rule skip_ws_shorter)
          then have "parse_members m r4 = parse_members n r4"
            using r0 r1 r2 r3 assms(2) by simp
          then show ?thesis using s0 Some a s1 v pv b s3 by simp
        qed
      qed
    qed
  qed
qed

lemma parse_fuel_stable:
  "(\<forall>s m. 2 * length s + 1 \<le> n \<and> n \<le> m \<longrightarrow> parse_value m s = parse_value n s)
   \<and> (\<forall>s m. 2 * length s + 2 \<le> n \<and> n \<le> m \<longrightarrow> parse_elements m s = parse_elements n s)
   \<and> (\<forall>s m. 2 * length s + 2 \<le> n \<and> n \<le> m \<longrightarrow> parse_members m s = parse_members n s)"
proof (induction n)
  case 0
  show ?case by simp
next
  case (Suc n)
  have va: "parse_value m s = parse_value n s" if "2 * length s + 1 \<le> n" "n \<le> m" for s m
    using Suc that by blast
  have el: "parse_elements m s = parse_elements n s" if "2 * length s + 2 \<le> n" "n \<le> m" for s m
    using Suc that by blast
  have me: "parse_members m s = parse_members n s" if "2 * length s + 2 \<le> n" "n \<le> m" for s m
    using Suc that by blast
  have 1: "parse_value m s = parse_value (Suc n) s"
    if b: "2 * length s + 1 \<le> Suc n" "Suc n \<le> m" for s m
  proof -
    obtain m' where m: "m = Suc m'" "n \<le> m'" using b(2) by (cases m) auto
    show ?thesis
      unfolding m(1)
    proof (rule parse_value_Suc_cong)
      fix r :: string assume "length r < length s"
      then have "2 * length r + 2 \<le> n" using b(1) by simp
      then show "parse_elements m' r = parse_elements n r" using m(2) by (rule el)
    next
      fix r :: string assume "length r < length s"
      then have "2 * length r + 2 \<le> n" using b(1) by simp
      then show "parse_members m' r = parse_members n r" using m(2) by (rule me)
    qed
  qed
  have 2: "parse_elements m s = parse_elements (Suc n) s"
    if b: "2 * length s + 2 \<le> Suc n" "Suc n \<le> m" for s m
  proof -
    obtain m' where m: "m = Suc m'" "n \<le> m'" using b(2) by (cases m) auto
    show ?thesis
      unfolding m(1)
    proof (rule parse_elements_Suc_cong)
      have "2 * length s + 1 \<le> n" using b(1) by simp
      then show "parse_value m' s = parse_value n s" using m(2) by (rule va)
    next
      fix r :: string assume "length r + 1 < length s"
      then have "2 * length r + 2 \<le> n" using b(1) by simp
      then show "parse_elements m' r = parse_elements n r" using m(2) by (rule el)
    qed
  qed
  have 3: "parse_members m s = parse_members (Suc n) s"
    if b: "2 * length s + 2 \<le> Suc n" "Suc n \<le> m" for s m
  proof -
    obtain m' where m: "m = Suc m'" "n \<le> m'" using b(2) by (cases m) auto
    show ?thesis
      unfolding m(1)
    proof (rule parse_members_Suc_cong)
      fix r :: string assume "length r + 2 < length s"
      then have "2 * length r + 1 \<le> n" using b(1) by simp
      then show "parse_value m' r = parse_value n r" using m(2) by (rule va)
    next
      fix r :: string assume "length r + 2 < length s"
      then have "2 * length r + 2 \<le> n" using b(1) by simp
      then show "parse_members m' r = parse_members n r" using m(2) by (rule me)
    qed
  qed
  show ?case using 1 2 3 by blast
qed

lemma JSON_parse_fuel:
  "2 * length s + 1 \<le> m \<Longrightarrow> parse_value m s = parse_value (2 * length s + 1) s"
  using parse_fuel_stable [of "2 * length s + 1"] by simp

section \<open>Properties of the handler wrapper\<close>

lemma handler_input_bare:
  "handler_input inputSchema bare_event
     = Inr \<lparr> handler_body = JObj [], handler_event = bare_event, handler_headers = [],
             handler_method = ''GET'', handler_path = ''/heroes/Superman/rescues'',
             handler_pathParameters = [(''hero'', ''Superman'')],
             handler_queryStringParameters = [] \<rparr>"
  by (cases inputSchema) (simp_all add: handler_input_def bare_event_def)

text \<open>
  Claim C4. With a response schema configured, whenever the handler is reached and returns
  data that is not a string and that the schema rejects, the wrapper returns exactly the
  status 500 with the body \<^verbatim>\<open>Internal server error\<close> and no headers, whatever the data, the
  status code and the headers of the handler's output were; nothing is logged.
\<close>

theorem malformed_response_is_opaque_500:
  assumes "handler_input inputSchema event = Inr args"
    and "apiHandler args = Inr handlerOutput"
    and "\<not> is_string (data handlerOutput)"
    and "schema (data handlerOutput) = Inl err"
  shows "initApiHandler apiHandler inputSchema (Some schema) event
      = ([], \<lparr> statusCode = 500, result_body = ''Internal server error'', result_headers = None \<rparr>)"
  using assms by (simp add: initApiHandler_def)

theorem malformed_response_is_opaque_500_witness:
  "initApiHandler (returning hero_required) None (Some (safeParse ListHeroRescuesResponseSchema))
     bare_event
   = ([], \<lparr> statusCode = 500, result_body = ''Internal server error'', result_headers = None \<rparr>)"
proof -
  have out: "returning hero_required
      \<lparr> handler_body = JObj [], handler_event = bare_event, handler_headers = [],
        handler_method = ''GET'', handler_path = ''/heroes/Superman/rescues'',
        handler_pathParameters = [(''hero'', ''Superman'')],
        handler_queryStringParameters = [] \<rparr> = Inr hero_required"
    by (simp add: returning_def)
  have nonstring: "\<not> is_string (data hero_required)"
    by (simp add: hero_required_def)
  have bad: "safeParse ListHeroRescuesResponseSchema (data hero_required)
      = Inl (ZodError ''Required'' [ZodIssue [''rescues''] ''Required''])"
    by (simp add: safeParse_def ListHeroRescuesResponseSchema_def hero_required_def at_key_def)
  show ?thesis
    using handler_input_bare [of None] out nonstring bad
    by (rule malformed_response_is_opaque_500)
qed







lemma serialize_string:
  "data handlerOutput = JStr string \<Longrightarrow> result_body (serialize handlerOutput) = string"
  by (simp add: serialize_def)



end
